theory Spec2Isabelle
  imports Main "HOL-Library.Word"
begin

section \<open>The whisper-server supervisor (src/helpers/whisperServer.js)\<close>

text \<open>
  The class \<open>WhisperServerManager\<close> is embedded as a record of its fields and one HOL
  function per method. Asynchronous methods are cut at their \<open>await\<close> points: every
  piece of code that runs without suspending is one function on the record, and the
  answers of the outside world (file system, port binding, the child process, HTTP)
  are parameters. The external actions a method performs are appended to the ghost
  field \<open>effects\<close>, oldest first.
\<close>

subsection \<open>Constants\<close>

definition PORT_RANGE_START :: nat where "PORT_RANGE_START = 8178"
definition PORT_RANGE_END :: nat where "PORT_RANGE_END = 8199"
definition STARTUP_TIMEOUT_MS :: nat where "STARTUP_TIMEOUT_MS = 30000"
definition HEALTH_CHECK_INTERVAL_MS :: nat where "HEALTH_CHECK_INTERVAL_MS = 5000"
definition HEALTH_CHECK_TIMEOUT_MS :: nat where "HEALTH_CHECK_TIMEOUT_MS = 2000"
definition STARTUP_POLL_INTERVAL_MS :: nat where "STARTUP_POLL_INTERVAL_MS = 100"
definition STOP_GRACE_MS :: nat where "STOP_GRACE_MS = 5000"
definition LOOPBACK :: string where "LOOPBACK = ''127.0.0.1''"

subsection \<open>Data\<close>

type_synonym byte = "8 word"

datatype signal = SIGTERM | SIGKILL

text \<open>Every \<open>throw new Error(...)\<close> of the file, named as the specification names it,
  and the error that a call of \<open>killProcess\<close> may throw.\<close>

datatype error =
    BinaryNotFound               \<comment> \<open>"whisper-server binary not found"\<close>
  | ModelNotFound string         \<comment> \<open>"Model file not found: <path>"\<close>
  | NoPortAvailable              \<comment> \<open>"No available ports in range 8178-8199"\<close>
  | StartupDied string           \<comment> \<open>"whisper-server process died during startup<details>"\<close>
  | StartupTimeout               \<comment> \<open>"whisper-server failed to start within 30000ms"\<close>
  | ServerNotRunning             \<comment> \<open>"whisper-server is not running"\<close>
  | UnsupportedFormat            \<comment> \<open>"FFmpeg not found - whisper-server requires WAV input"\<close>
  | InferenceError nat string    \<comment> \<open>"whisper-server returned status <code>: <data>"\<close>
  | MalformedResponse string     \<comment> \<open>"Failed to parse whisper-server response: <msg>"\<close>
  | RequestFailed string         \<comment> \<open>"whisper-server request failed: <msg>"\<close>
  | RequestTimedOut              \<comment> \<open>"whisper-server request timed out"\<close>
  | KillFailed signal            \<comment> \<open>thrown by \<open>killProcess(child, signal)\<close>\<close>

record http_request =
  req_hostname :: string
  req_port :: "nat option"
  req_path :: string
  req_method :: string
  req_content_type :: string
  req_content_length :: nat
  req_timeout :: nat
  req_body :: "byte list"

datatype effect =
    Listen nat string                               \<comment> \<open>server.listen(port, host)\<close>
  | CloseListener nat                               \<comment> \<open>server.close()\<close>
  | Spawn nat string "string list" string string    \<comment> \<open>child id, binary, args, cwd, env.PATH\<close>
  | Kill nat signal                                 \<comment> \<open>killProcess(child, signal)\<close>
  | HealthGet "nat option"                          \<comment> \<open>GET / on 127.0.0.1:port\<close>
  | HttpSend http_request                           \<comment> \<open>req.write(body); req.end()\<close>
  | Chmod string                                    \<comment> \<open>fs.chmodSync(path, 0o755)\<close>
  | SetInterval nat                                 \<comment> \<open>setInterval(..., ms)\<close>
  | ClearInterval                                   \<comment> \<open>clearInterval(handle)\<close>
  | StopErrorLogged error                           \<comment> \<open>debugLogger.error("Error stopping whisper-server", ...)\<close>
  | UncaughtException error                         \<comment> \<open>an error leaves a timer callback uncaught\<close>

text \<open>The handle returned by \<open>spawn\<close>: an identity and the \<open>killed\<close> flag.\<close>

record child =
  child_id :: nat
  killed :: bool

record manager =
  process :: "child option"
  port :: "nat option"
  ready :: bool
  modelPath :: "string option"
  startupPromise :: "nat option"
  healthCheckInterval :: bool
  cachedServerBinaryPath :: "string option"
  cachedCudaBinaryPath :: "string option"
  cachedFFmpegPath :: "string option"
  canConvert :: bool
  usingCuda :: bool
  cudaAvailable :: "bool option"
  effects :: "effect list"

definition emit :: "effect list \<Rightarrow> manager \<Rightarrow> manager" where
  "emit es m = m\<lparr>effects := effects m @ es\<rparr>"

text \<open>The constructor (lines 17-30).\<close>

definition new_manager :: manager where
  "new_manager = \<lparr>process = None, port = None, ready = False, modelPath = None,
     startupPromise = None, healthCheckInterval = False, cachedServerBinaryPath = None,
     cachedCudaBinaryPath = None, cachedFFmpegPath = None, canConvert = False,
     usingCuda = False, cudaAvailable = None, effects = []\<rparr>"

subsection \<open>Port allocator (lines 235-252)\<close>

text \<open>
  \<open>isPortAvailable\<close> creates a server, asks it to listen on the loopback address and
  resolves on the first of the events \<open>error\<close> (false) and \<open>listening\<close> (close the
  server, true). \<open>bindable p\<close> is the answer of the operating system for port \<open>p\<close>.
\<close>

definition isPortAvailable_listen :: "nat \<Rightarrow> manager \<Rightarrow> manager" where
  "isPortAvailable_listen p m = emit [Listen p LOOPBACK] m"

definition isPortAvailable_settle :: "nat \<Rightarrow> bool \<Rightarrow> manager \<Rightarrow> bool \<times> manager" where
  "isPortAvailable_settle p ok m = (if ok then (True, emit [CloseListener p] m) else (False, m))"

definition isPortAvailable :: "(nat \<Rightarrow> bool) \<Rightarrow> nat \<Rightarrow> manager \<Rightarrow> bool \<times> manager" where
  "isPortAvailable bindable p m = isPortAvailable_settle p (bindable p) (isPortAvailable_listen p m)"

text \<open>The \<open>for\<close> loop of \<open>findAvailablePort\<close>, entered with the loop variable \<open>p\<close>.\<close>

function findAvailablePort_from :: "(nat \<Rightarrow> bool) \<Rightarrow> nat \<Rightarrow> manager \<Rightarrow> (error + nat) \<times> manager" where
  "findAvailablePort_from bindable p m =
     (if p \<le> PORT_RANGE_END then
        (case isPortAvailable bindable p m of
           (True, m') \<Rightarrow> (Inr p, m')
         | (False, m') \<Rightarrow> findAvailablePort_from bindable (p + 1) m')
      else (Inl NoPortAvailable, m))"
  by pat_completeness auto
termination
  by (relation "measure (\<lambda>(bindable, p, m). Suc PORT_RANGE_END - p)") auto

definition findAvailablePort :: "(nat \<Rightarrow> bool) \<Rightarrow> manager \<Rightarrow> (error + nat) \<times> manager" where
  "findAvailablePort bindable m = findAvailablePort_from bindable PORT_RANGE_START m"

text \<open>The bind attempts the scan of the ports \<open>ps\<close> makes, in order, when none is free
  before the last one listed.\<close>

fun probe_trace :: "(nat \<Rightarrow> bool) \<Rightarrow> nat list \<Rightarrow> effect list" where
  "probe_trace bindable [] = []"
| "probe_trace bindable (p # ps) =
     (if bindable p then [Listen p LOOPBACK, CloseListener p]
      else Listen p LOOPBACK # probe_trace bindable ps)"


subsection \<open>Strings\<close>

text \<open>JavaScript's truthiness of a string-or-null value: null and the empty string are falsy.\<close>

definition truthy :: "string option \<Rightarrow> bool" where
  "truthy s = (case s of None \<Rightarrow> False | Some x \<Rightarrow> x \<noteq> [])"

definition or_empty :: "string option \<Rightarrow> string" where
  "or_empty s = (case s of None \<Rightarrow> [] | Some x \<Rightarrow> x)"

definition digit_char :: "nat \<Rightarrow> char" where
  "digit_char d = ''0123456789'' ! d"

text \<open>\<open>String(n)\<close> for a non-negative integer, and for any integer, in decimal digits
  (JavaScript changes to the exponent form from \<open>1e21\<close> on).\<close>

function show_nat :: "nat \<Rightarrow> string" where
  "show_nat n = (if n < 10 then [digit_char n] else show_nat (n div 10) @ [digit_char (n mod 10)])"
  by pat_completeness auto
termination
  by (relation "measure id") auto

definition show_int :: "int \<Rightarrow> string" where
  "show_int i = (if i < 0 then CHR ''-'' # show_nat (nat (- i)) else show_nat (nat i))"

definition ends_with :: "string \<Rightarrow> string \<Rightarrow> bool" where
  "ends_with s suf = (length suf \<le> length s \<and> drop (length s - length suf) s = suf)"

fun str_includes :: "string \<Rightarrow> string \<Rightarrow> bool" where
  "str_includes [] sub = (sub = [])"
| "str_includes (c # cs) sub = (take (length sub) (c # cs) = sub \<or> str_includes cs sub)"

definition backslash :: char where "backslash = CHR 0x5C"
definition dquote :: char where "dquote = CHR 0x22"

text \<open>\<open>s.replace(/app\.asar([/\\])/, "app.asar.unpacked$1")\<close>: the first place where
  \<open>app.asar\<close> is followed by a slash or a backslash.\<close>

fun asar_unpacked :: "string \<Rightarrow> string" where
  "asar_unpacked [] = []"
| "asar_unpacked (c # cs) =
     (if take 8 (c # cs) = ''app.asar'' \<and> 8 < length (c # cs) \<and>
         ((c # cs) ! 8 = CHR ''/'' \<or> (c # cs) ! 8 = backslash)
      then ''app.asar.unpacked'' @ drop 8 (c # cs)
      else c # asar_unpacked cs)"

text \<open>\<open>s.replace(pat, rep)\<close> with a string pattern: the first occurrence only.\<close>

fun replace_first :: "string \<Rightarrow> string \<Rightarrow> string \<Rightarrow> string" where
  "replace_first pat rep [] = (if pat = [] then rep else [])"
| "replace_first pat rep (c # cs) =
     (if take (length pat) (c # cs) = pat then rep @ drop (length pat) (c # cs)
      else c # replace_first pat rep cs)"

text \<open>\<open>s.split(sep)\<close> for a one-character separator.\<close>

fun split_on :: "char \<Rightarrow> string \<Rightarrow> string list" where
  "split_on sep [] = [[]]"
| "split_on sep (c # cs) =
     (if c = sep then [] # split_on sep cs
      else (case split_on sep cs of [] \<Rightarrow> [[c]] | w # ws \<Rightarrow> (c # w) # ws))"

text \<open>\<open>entry.replace(/^"|"$/g, "")\<close>: one leading and one trailing double quote.\<close>

definition strip_quotes :: "string \<Rightarrow> string" where
  "strip_quotes s =
     (let s1 = (case s of [] \<Rightarrow> [] | c # cs \<Rightarrow> if c = dquote then cs else c # cs)
      in if s1 \<noteq> [] \<and> last s1 = dquote then butlast s1 else s1)"

text \<open>\<open>s.trim()\<close> on the ASCII white space; the other white space of Unicode that
  JavaScript also strips is left in place.\<close>

definition is_space :: "char \<Rightarrow> bool" where
  "is_space c = (c \<in> set [CHR '' '', CHR 0x09, CHR 0x0A, CHR 0x0B, CHR 0x0C, CHR 0x0D])"

definition trim :: "string \<Rightarrow> string" where
  "trim s = rev (dropWhile is_space (rev (dropWhile is_space s)))"

definition bytes_of :: "string \<Rightarrow> byte list" where
  "bytes_of s = map (\<lambda>c. of_nat (of_char c)) s"

subsection \<open>The host\<close>

text \<open>
  What the methods read from the platform: \<open>process.*\<close>, \<open>__dirname\<close>, the file
  system, the \<open>path\<close> module, the module \<open>ffmpeg-static\<close> (\<open>None\<close> when requiring it
  or normalising its value throws) and the outcome of running \<open>nvidia-smi\<close>.
\<close>

record host =
  platform :: string
  arch :: string
  resourcesPath :: "string option"
  dirname :: string
  env_PATH :: "string option"
  ffmpeg_static :: "string option"
  existsSync :: "string \<Rightarrow> bool"
  statSync_ok :: "string \<Rightarrow> bool"
  access_X_OK :: "string \<Rightarrow> bool"
  path_join :: "string list \<Rightarrow> string"
  path_normalize :: "string \<Rightarrow> string"
  path_dirname :: "string \<Rightarrow> string"
  path_basename :: "string \<Rightarrow> string \<Rightarrow> string"
  nvidia_smi_ok :: bool

subsection \<open>Binary locator (lines 32-184)\<close>

text \<open>The bundled FFmpeg, lines 35-81: \<open>Some\<close> path when one of the two \<open>return\<close>s
  inside the \<open>try\<close> is reached, \<open>None\<close> when control leaves the \<open>try\<close> otherwise.\<close>

definition bundledFFmpeg :: "host \<Rightarrow> manager \<Rightarrow> string option \<times> manager" where
  "bundledFFmpeg h m =
     (case ffmpeg_static h of
        None \<Rightarrow> (None, m)
      | Some required \<Rightarrow>
          let normalized = path_normalize h required;
              ffmpegPath = (if platform h = ''win32'' \<and> \<not> ends_with normalized ''.exe''
                            then normalized @ ''.exe'' else normalized);
              unpackedPath = (if str_includes ffmpegPath ''app.asar''
                              then Some (asar_unpacked ffmpegPath) else None)
          in if truthy unpackedPath \<and> existsSync h (or_empty unpackedPath) then
               let u = or_empty unpackedPath;
                   m1 = (if platform h \<noteq> ''win32'' \<and> \<not> access_X_OK h u
                         then emit [Chmod u] m else m)
               in (Some u, m1\<lparr>cachedFFmpegPath := Some u\<rparr>)
             else if existsSync h ffmpegPath then
               if platform h \<noteq> ''win32'' \<and> \<not> access_X_OK h ffmpegPath then (None, m)
               else (Some ffmpegPath, m\<lparr>cachedFFmpegPath := Some ffmpegPath\<rparr>)
             else (None, m))"

definition systemCandidates :: "host \<Rightarrow> string list" where
  "systemCandidates h =
     (if platform h = ''darwin'' then [''/opt/homebrew/bin/ffmpeg'', ''/usr/local/bin/ffmpeg'']
      else if platform h = ''win32''
           then [[CHR ''C'', CHR '':'', backslash] @ ''ffmpeg'' @ [backslash] @ ''bin'' @ [backslash] @ ''ffmpeg.exe'']
      else [''/usr/bin/ffmpeg'', ''/usr/local/bin/ffmpeg''])"

text \<open>The scan of the directories of \<open>PATH\<close>, lines 98-116.\<close>

definition pathCandidates :: "host \<Rightarrow> string list" where
  "pathCandidates h =
     (let pathEnv = (if truthy (env_PATH h) then or_empty (env_PATH h) else []);
          pathSep = (if platform h = ''win32'' then CHR '';'' else CHR '':'');
          pathDirs = map strip_quotes (split_on pathSep pathEnv);
          pathBinary = (if platform h = ''win32'' then ''ffmpeg.exe'' else ''ffmpeg'')
      in map (\<lambda>dir. path_join h [dir, pathBinary]) (filter (\<lambda>dir. dir \<noteq> []) pathDirs))"

definition getFFmpegPath :: "host \<Rightarrow> manager \<Rightarrow> string option \<times> manager" where
  "getFFmpegPath h m =
     (if truthy (cachedFFmpegPath m) then (cachedFFmpegPath m, m)
      else case bundledFFmpeg h m of
        (Some p, m1) \<Rightarrow> (Some p, m1)
      | (None, m1) \<Rightarrow>
          (case List.find (existsSync h) (systemCandidates h) of
             Some c \<Rightarrow> (Some c, m1\<lparr>cachedFFmpegPath := Some c\<rparr>)
           | None \<Rightarrow>
               (case List.find (\<lambda>c. existsSync h c \<and> (platform h = ''win32'' \<or> access_X_OK h c))
                       (pathCandidates h) of
                  Some c \<Rightarrow> (Some c, m1\<lparr>cachedFFmpegPath := Some c\<rparr>)
                | None \<Rightarrow> (None, m1))))"

text \<open>The candidate list of \<open>getServerBinaryPath\<close>, lines 127-168.\<close>

definition serverCandidates :: "host \<Rightarrow> bool \<Rightarrow> string list" where
  "serverCandidates h useCuda =
     (let platformArch = platform h @ ''-'' @ arch h;
          variant = (if platform h \<noteq> ''darwin'' \<and> useCuda then ''cuda'' else ''cpu'');
          isRequestingCuda = (useCuda \<and> platform h \<noteq> ''darwin'');
          binaryName = (if platform h = ''win32''
                        then ''whisper-server-'' @ platformArch @ ''-'' @ variant @ ''.exe''
                        else ''whisper-server-'' @ platformArch @ ''-'' @ variant);
          legacyBinaryName = (if platform h = ''win32''
                              then ''whisper-server-'' @ platformArch @ ''.exe''
                              else ''whisper-server-'' @ platformArch);
          genericName = (if platform h = ''win32'' then ''whisper-server.exe'' else ''whisper-server'');
          packaged = (if truthy (resourcesPath h) then
                        path_join h [or_empty (resourcesPath h), ''bin'', binaryName] #
                        (if \<not> isRequestingCuda then
                           [path_join h [or_empty (resourcesPath h), ''bin'', legacyBinaryName],
                            path_join h [or_empty (resourcesPath h), ''bin'', genericName]]
                         else [])
                      else []);
          development =
            path_join h [dirname h, ''..'', ''..'', ''resources'', ''bin'', binaryName] #
            (if \<not> isRequestingCuda then
               [path_join h [dirname h, ''..'', ''..'', ''resources'', ''bin'', legacyBinaryName],
                path_join h [dirname h, ''..'', ''..'', ''resources'', ''bin'', genericName]]
             else [])
      in packaged @ development)"

definition getServerBinaryPath :: "host \<Rightarrow> bool \<Rightarrow> manager \<Rightarrow> string option \<times> manager" where
  "getServerBinaryPath h useCuda m =
     (let cached = (if useCuda then cachedCudaBinaryPath m else cachedServerBinaryPath m)
      in if truthy cached then (cached, m)
         else case List.find (\<lambda>c. existsSync h c \<and> statSync_ok h c) (serverCandidates h useCuda) of
                Some c \<Rightarrow> (Some c, if useCuda then m\<lparr>cachedCudaBinaryPath := Some c\<rparr>
                                     else m\<lparr>cachedServerBinaryPath := Some c\<rparr>)
              | None \<Rightarrow> (None, m))"

subsection \<open>Accelerator prober (lines 191-233)\<close>

definition checkCudaAvailable :: "host \<Rightarrow> manager \<Rightarrow> bool \<times> manager" where
  "checkCudaAvailable h m =
     (case cudaAvailable m of
        Some b \<Rightarrow> (b, m)
      | None \<Rightarrow>
          if platform h = ''darwin'' then (False, m\<lparr>cudaAvailable := Some False\<rparr>)
          else if nvidia_smi_ok h then (True, m\<lparr>cudaAvailable := Some True\<rparr>)
          else (False, m\<lparr>cudaAvailable := Some False\<rparr>))"

definition isCudaBinaryAvailable :: "host \<Rightarrow> manager \<Rightarrow> bool \<times> manager" where
  "isCudaBinaryAvailable h m = (case getServerBinaryPath h True m of (p, m') \<Rightarrow> (p \<noteq> None, m'))"

definition clearCudaBinaryCache :: "manager \<Rightarrow> manager" where
  "clearCudaBinaryCache m = m\<lparr>cachedCudaBinaryPath := None\<rparr>"

definition isAvailable :: "host \<Rightarrow> manager \<Rightarrow> bool \<times> manager" where
  "isAvailable h m = (case getServerBinaryPath h False m of (p, m') \<Rightarrow> (p \<noteq> None, m'))"

subsection \<open>Health polling (lines 409-453)\<close>

definition stopHealthCheck :: "manager \<Rightarrow> manager" where
  "stopHealthCheck m =
     (if healthCheckInterval m then (emit [ClearInterval] m)\<lparr>healthCheckInterval := False\<rparr> else m)"

definition startHealthCheck :: "manager \<Rightarrow> manager" where
  "startHealthCheck m =
     (emit [SetInterval HEALTH_CHECK_INTERVAL_MS] (stopHealthCheck m))\<lparr>healthCheckInterval := True\<rparr>"

text \<open>\<open>checkHealth\<close> sends the request; its answer arrives later.\<close>

definition checkHealth_send :: "manager \<Rightarrow> manager" where
  "checkHealth_send m = emit [HealthGet (port m)] m"

text \<open>The timer callback of \<open>startHealthCheck\<close>: up to its \<open>await\<close> (the flag says whether
  a probe was sent), and after it.\<close>

definition healthTick_begin :: "manager \<Rightarrow> bool \<times> manager" where
  "healthTick_begin m =
     (case process m of None \<Rightarrow> (False, stopHealthCheck m) | Some c \<Rightarrow> (True, checkHealth_send m))"

definition healthTick_end :: "bool \<Rightarrow> manager \<Rightarrow> manager" where
  "healthTick_end ok m = (if \<not> ok then m\<lparr>ready := False\<rparr> else m)"

definition healthTick :: "bool \<Rightarrow> manager \<Rightarrow> manager" where
  "healthTick ok m = (case healthTick_begin m of (False, m1) \<Rightarrow> m1 | (True, m1) \<Rightarrow> healthTick_end ok m1)"

subsection \<open>Start: resolving the binary and spawning (lines 274-364)\<close>

text \<open>The options that \<open>start\<close> reads. \<open>threads\<close> is taken to be an integer; a
  fractional number or a string passed there is outside this record.\<close>

record start_options =
  opt_useCuda :: "bool option"
  opt_threads :: "int option"
  opt_language :: "string option"

definition useCuda_of :: "start_options \<Rightarrow> bool" where
  "useCuda_of opts = (case opt_useCuda opts of None \<Rightarrow> False | Some b \<Rightarrow> b)"

text \<open>Lines 275-296 of \<open>_doStart\<close>: everything before the port scan.\<close>

definition doStart_resolve :: "host \<Rightarrow> string \<Rightarrow> start_options \<Rightarrow> manager \<Rightarrow> (error + string) \<times> manager" where
  "doStart_resolve h mp opts m =
     (let (serverBinary, actuallyUsingCuda, m1) =
            (if useCuda_of opts then
               (case getServerBinaryPath h True m of
                  (sb, m') \<Rightarrow>
                    if truthy sb then (sb, True, m')
                    else (case getServerBinaryPath h False m' of (sb2, m'') \<Rightarrow> (sb2, False, m'')))
             else (case getServerBinaryPath h False m of (sb, m') \<Rightarrow> (sb, False, m')))
      in if \<not> truthy serverBinary then (Inl BinaryNotFound, m1)
         else let m2 = m1\<lparr>usingCuda := actuallyUsingCuda\<rparr>
              in if \<not> existsSync h mp then (Inl (ModelNotFound mp), m2)
                 else (Inr (or_empty serverBinary), m2))"

text \<open>The command line of the child, lines 310-325.\<close>

definition spawn_args :: "string \<Rightarrow> nat \<Rightarrow> bool \<Rightarrow> start_options \<Rightarrow> string list" where
  "spawn_args mp p convert opts =
     [''--model'', mp, ''--host'', ''127.0.0.1'', ''--port'', show_nat p]
     @ (if convert then [''--convert''] else [])
     @ (case opt_threads opts of
          None \<Rightarrow> [] | Some t \<Rightarrow> if t \<noteq> 0 then [''--threads'', show_int t] else [])
     @ (if truthy (opt_language opts) \<and> opt_language opts \<noteq> Some ''auto''
        then [''--language'', or_empty (opt_language opts)] else [])"

text \<open>The children spawned so far; the next child gets this number as its identity.\<close>

fun is_spawn :: "effect \<Rightarrow> bool" where
  "is_spawn (Spawn c b a d e) = True"
| "is_spawn x = False"

definition spawn_count :: "manager \<Rightarrow> nat" where
  "spawn_count m = length (filter is_spawn (effects m))"

text \<open>Lines 298-339, entered when the port scan has returned \<open>p\<close>.\<close>

definition doStart_spawn :: "host \<Rightarrow> string \<Rightarrow> start_options \<Rightarrow> string \<Rightarrow> nat \<Rightarrow> manager \<Rightarrow> manager" where
  "doStart_spawn h mp opts serverBinary p m =
     (let m1 = m\<lparr>port := Some p, modelPath := Some mp\<rparr>;
          (ffmpegPath, m2) = getFFmpegPath h m1;
          pathSep = (if platform h = ''win32'' then '';'' else '':'');
          serverBinaryDir = path_dirname h serverBinary;
          basePATH = serverBinaryDir @ pathSep @ (if truthy (env_PATH h) then or_empty (env_PATH h) else []);
          m3 = m2\<lparr>canConvert := truthy ffmpegPath\<rparr>;
          spawnPATH = (if truthy ffmpegPath
                       then path_dirname h (or_empty ffmpegPath) @ pathSep @ basePATH else basePATH);
          args = spawn_args mp p (truthy ffmpegPath) opts;
          cid = spawn_count m3
      in (emit [Spawn cid serverBinary args serverBinaryDir spawnPATH] m3)
           \<lparr>process := Some \<lparr>child_id = cid, killed = False\<rparr>\<rparr>)"

subsection \<open>The observers of the child (lines 341-364)\<close>

text \<open>The variables \<open>stderrBuffer\<close> and \<open>exitCode\<close> of one \<open>_doStart\<close> call.\<close>

record startup_info =
  stderrBuffer :: string
  exitCode :: "int option"

definition no_info :: startup_info where
  "no_info = \<lparr>stderrBuffer = [], exitCode = None\<rparr>"

datatype child_event =
    StderrData string         \<comment> \<open>\<open>data\<close> on the child's standard error\<close>
  | ProcError string          \<comment> \<open>the child's \<open>error\<close> event\<close>
  | ProcClose "int option"    \<comment> \<open>the child's \<open>close\<close> event with its exit code\<close>

definition on_error :: "manager \<Rightarrow> manager" where
  "on_error m = m\<lparr>ready := False\<rparr>"

definition on_close :: "manager \<Rightarrow> manager" where
  "on_close m = stopHealthCheck (m\<lparr>ready := False, process := None\<rparr>)"

fun child_handler :: "child_event \<Rightarrow> startup_info \<times> manager \<Rightarrow> startup_info \<times> manager" where
  "child_handler (StderrData d) (i, m) = (i\<lparr>stderrBuffer := stderrBuffer i @ d\<rparr>, m)"
| "child_handler (ProcError e) (i, m) = (i, on_error m)"
| "child_handler (ProcClose code) (i, m) = (i\<lparr>exitCode := code\<rparr>, on_close m)"

definition deliver :: "child_event list \<Rightarrow> startup_info \<times> manager \<Rightarrow> startup_info \<times> manager" where
  "deliver evs s = fold child_handler evs s"

subsection \<open>Readiness protocol (lines 375-407)\<close>

text \<open>The error thrown at lines 385-390.\<close>

definition died_error :: "startup_info \<Rightarrow> error" where
  "died_error i =
     (let stderr = (if stderrBuffer i \<noteq> [] then take 200 (trim (stderrBuffer i)) else []);
          details = (if stderr \<noteq> [] then stderr
                     else case exitCode i of None \<Rightarrow> [] | Some c \<Rightarrow> ''exit code: '' @ show_int c)
      in StartupDied (if details \<noteq> [] then '': '' @ details else []))"

text \<open>The head of the \<open>while\<close> loop, at \<open>elapsed = Date.now() - startTime\<close>: the error
  with which \<open>waitForReady\<close> ends here, or \<open>None\<close> when it goes on to probe.\<close>

definition waitForReady_head :: "nat \<Rightarrow> startup_info \<Rightarrow> manager \<Rightarrow> error option" where
  "waitForReady_head elapsed i m =
     (if elapsed < STARTUP_TIMEOUT_MS then
        (case process m of
           None \<Rightarrow> Some (died_error i)
         | Some c \<Rightarrow> if killed c then Some (died_error i) else None)
      else Some StartupTimeout)"

text \<open>
  One round of the loop as the outside world answers it: the probe's answer and
  duration, the child events delivered while the probe was pending, and the child
  events delivered during the pause, which lasts \<open>STARTUP_POLL_INTERVAL_MS\<close> plus
  \<open>pause_extra\<close>.
\<close>

record round =
  probe_ok :: bool
  probe_ms :: nat
  probe_events :: "child_event list"
  pause_extra :: nat
  pause_events :: "child_event list"

function waitForReady_loop ::
  "(nat \<Rightarrow> round) \<Rightarrow> nat \<Rightarrow> nat \<Rightarrow> startup_info \<Rightarrow> manager \<Rightarrow> (error + unit) \<times> manager" where
  "waitForReady_loop rounds k elapsed i m =
     (case waitForReady_head elapsed i m of
        Some e \<Rightarrow> (Inl e, m)
      | None \<Rightarrow>
          (case deliver (probe_events (rounds k)) (i, checkHealth_send m) of
             (i1, m1) \<Rightarrow>
               if probe_ok (rounds k) then (Inr (), m1\<lparr>ready := True\<rparr>)
               else (case deliver (pause_events (rounds k)) (i1, m1) of
                       (i2, m2) \<Rightarrow>
                         waitForReady_loop rounds (k + 1)
                           (elapsed + probe_ms (rounds k) + STARTUP_POLL_INTERVAL_MS + pause_extra (rounds k))
                           i2 m2)))"
  by pat_completeness auto
termination
  by (relation "measure (\<lambda>(rounds, k, elapsed, i, m). STARTUP_TIMEOUT_MS - elapsed)")
     (auto simp: waitForReady_head_def STARTUP_POLL_INTERVAL_MS_def split: if_splits)

definition waitForReady :: "(nat \<Rightarrow> round) \<Rightarrow> manager \<Rightarrow> (error + unit) \<times> manager" where
  "waitForReady rounds m = waitForReady_loop rounds 0 0 no_info m"

text \<open>Descriptions of the answers: a list of child events without a \<open>close\<close>, the time
  one unsuccessful round takes, and the value of \<open>Date.now() - startTime\<close> at the head
  of round \<open>n\<close>.\<close>

fun is_close :: "child_event \<Rightarrow> bool" where
  "is_close (ProcClose code) = True"
| "is_close e = False"

definition no_close :: "child_event list \<Rightarrow> bool" where
  "no_close evs = (filter is_close evs = [])"

definition round_ms :: "round \<Rightarrow> nat" where
  "round_ms r = probe_ms r + STARTUP_POLL_INTERVAL_MS + pause_extra r"

fun elapsed_before :: "(nat \<Rightarrow> round) \<Rightarrow> nat \<Rightarrow> nat" where
  "elapsed_before rounds 0 = 0"
| "elapsed_before rounds (Suc n) = elapsed_before rounds n + round_ms (rounds n)"

text \<open>The part of the state that a round without a \<open>close\<close> event leaves alone.\<close>

definition same_owner :: "manager \<Rightarrow> manager \<Rightarrow> bool" where
  "same_owner m m' \<longleftrightarrow>
     process m' = process m \<and> port m' = port m \<and> modelPath m' = modelPath m \<and>
     startupPromise m' = startupPromise m \<and> healthCheckInterval m' = healthCheckInterval m \<and>
     usingCuda m' = usingCuda m \<and> canConvert m' = canConvert m \<and>
     filter is_spawn (effects m') = filter is_spawn (effects m)"

subsection \<open>Stop (lines 584-623)\<close>

definition stop_reset :: "manager \<Rightarrow> manager" where
  "stop_reset m = m\<lparr>process := None, ready := False, port := None, modelPath := None\<rparr>"

datatype stop_phase = StopReturned | StopWaiting nat

text \<open>
  \<open>killProcess\<close> comes from \<open>../utils/process\<close>; all that is used of it is whether a
  call throws. The call is recorded, and the error it throws, if any, is returned to
  the caller, which has to handle it.
\<close>

definition killProcess :: "bool \<Rightarrow> child \<Rightarrow> signal \<Rightarrow> manager \<Rightarrow> error option \<times> manager" where
  "killProcess throws c sig m =
     (if throws then Some (KillFailed sig) else None, emit [Kill (child_id c) sig] m)"

text \<open>
  Lines 585-614, up to the \<open>await\<close>. The \<open>killProcess\<close> of line 595 is inside the
  \<open>try\<close>: an error it throws is caught at line 615, logged, and execution goes on
  at line 619. \<open>StopWaiting c\<close> says that the grace timer is armed and a \<open>close\<close>
  listener is registered on child \<open>c\<close>.
\<close>

definition stop_begin :: "bool \<Rightarrow> manager \<Rightarrow> stop_phase \<times> manager" where
  "stop_begin sigterm_throws m =
     (let m1 = stopHealthCheck m
      in case process m1 of
           None \<Rightarrow> (StopReturned, m1\<lparr>ready := False\<rparr>)
         | Some c \<Rightarrow>
             (case killProcess sigterm_throws c SIGTERM m1 of
                (Some e, m2) \<Rightarrow> (StopReturned, stop_reset (emit [StopErrorLogged e] m2))
              | (None, m2) \<Rightarrow> (StopWaiting (child_id c), m2)))"

text \<open>
  The callback of the grace timer, lines 598-603: the flag says whether \<open>resolve()\<close>
  was reached. The \<open>killProcess\<close> of line 600 runs in the timer callback, outside the
  \<open>try\<close> of line 594: an error it throws is caught by nobody, and \<open>resolve()\<close> is not
  reached.
\<close>

definition stop_timer :: "bool \<Rightarrow> manager \<Rightarrow> bool \<times> manager" where
  "stop_timer sigkill_throws m =
     (case process m of
        None \<Rightarrow> (True, m)
      | Some c \<Rightarrow>
          (case killProcess sigkill_throws c SIGKILL m of
             (Some e, m1) \<Rightarrow> (False, emit [UncaughtException e] m1)
           | (None, m1) \<Rightarrow> (True, m1)))"

fun is_uncaught :: "effect \<Rightarrow> bool" where
  "is_uncaught (UncaughtException e) = True"
| "is_uncaught x = False"

text \<open>
  How one call of \<open>stop\<close> is answered: whether the two \<open>killProcess\<close> calls throw,
  whether the child's \<open>close\<close> event arrives within the grace period, and whether it
  arrives at all after the timer has fired.
\<close>

record stop_answers =
  term_throws :: bool
  closes_in_grace :: bool
  kill_throws :: bool
  closes_later :: bool

text \<open>
  The promise that \<open>stop\<close> returns, with the state at that moment. \<open>StopDone\<close>: it is
  fulfilled. \<open>StopRejected\<close>: it is rejected with an error, which the caller would
  receive. \<open>StopHangs\<close>: the promise at line 597 is never resolved, so \<open>stop\<close> never
  completes; the state is the one it leaves behind.
\<close>

datatype stop_result = StopDone manager | StopRejected error manager | StopHangs manager

definition stop :: "stop_answers \<Rightarrow> manager \<Rightarrow> stop_result" where
  "stop a m =
     (case stop_begin (term_throws a) m of
        (StopReturned, m1) \<Rightarrow> StopDone m1
      | (StopWaiting c, m1) \<Rightarrow>
          if closes_in_grace a then StopDone (stop_reset (on_close m1))
          else (case stop_timer (kill_throws a) m1 of
                  (True, m2) \<Rightarrow> StopDone (stop_reset m2)
                | (False, m2) \<Rightarrow>
                    if closes_later a then StopDone (stop_reset (on_close m2)) else StopHangs m2))"

subsection \<open>Start (lines 254-373)\<close>

text \<open>What one run of \<open>start\<close> is answered by the outside world.\<close>

record start_answers =
  stop_ans :: stop_answers
  port_free :: "nat \<Rightarrow> bool"
  startup_rounds :: "nat \<Rightarrow> round"

definition doStart :: "host \<Rightarrow> start_answers \<Rightarrow> string \<Rightarrow> start_options \<Rightarrow> manager \<Rightarrow> (error + unit) \<times> manager" where
  "doStart h a mp opts m =
     (case doStart_resolve h mp opts m of
        (Inl e, m1) \<Rightarrow> (Inl e, m1)
      | (Inr serverBinary, m1) \<Rightarrow>
          (case findAvailablePort (port_free a) m1 of
             (Inl e, m2) \<Rightarrow> (Inl e, m2)
           | (Inr p, m2) \<Rightarrow>
               (case waitForReady (startup_rounds a) (doStart_spawn h mp opts serverBinary p m2) of
                  (Inl e, m3) \<Rightarrow> (Inl e, m3)
                | (Inr u, m3) \<Rightarrow> (Inr (), startHealthCheck m3))))"

datatype start_result =
    Settled "error + unit"     \<comment> \<open>the call's own promise is fulfilled or rejected\<close>
  | Joined nat                 \<comment> \<open>line 255: the in-flight promise was handed back\<close>
  | Unsettled                  \<comment> \<open>the call waits for a \<open>stop\<close> that never finishes\<close>

text \<open>The first decisions of \<open>start\<close>, lines 255-262.\<close>

datatype start_entry = JoinInFlight nat | NoOp | StopFirst | Proceed

definition start_decide :: "string \<Rightarrow> start_options \<Rightarrow> manager \<Rightarrow> start_entry" where
  "start_decide mp opts m =
     (case startupPromise m of
        Some p \<Rightarrow> JoinInFlight p
      | None \<Rightarrow>
          if ready m \<and> modelPath m = Some mp \<and> usingCuda m = useCuda_of opts then NoOp
          else if process m \<noteq> None then StopFirst
          else Proceed)"

text \<open>
  One call of \<open>start\<close> with nothing else running beside it. Between line 266 and
  the \<open>finally\<close> the field \<open>startupPromise\<close> holds the promise of \<open>_doStart\<close>; nothing
  in \<open>_doStart\<close> reads it, and line 270 clears it.
\<close>

definition start :: "host \<Rightarrow> start_answers \<Rightarrow> string \<Rightarrow> start_options \<Rightarrow> manager \<Rightarrow> start_result \<times> manager" where
  "start h a mp opts m =
     (case start_decide mp opts m of
        JoinInFlight p \<Rightarrow> (Joined p, m)
      | NoOp \<Rightarrow> (Settled (Inr ()), m)
      | StopFirst \<Rightarrow>
          (case stop (stop_ans a) m of
             StopHangs m1 \<Rightarrow> (Unsettled, m1)
           | StopRejected e m1 \<Rightarrow> (Settled (Inl e), m1)
           | StopDone m1 \<Rightarrow>
               (case doStart h a mp opts m1 of (r, m2) \<Rightarrow> (Settled r, m2\<lparr>startupPromise := None\<rparr>)))
      | Proceed \<Rightarrow>
          (case doStart h a mp opts m of (r, m2) \<Rightarrow> (Settled r, m2\<lparr>startupPromise := None\<rparr>)))"

subsection \<open>Transcription (lines 455-582)\<close>

record transcribe_options =
  t_language :: "string option"
  t_initialPrompt :: "string option"

definition isWav :: "byte list \<Rightarrow> bool" where
  "isWav audioBuffer =
     (length audioBuffer \<ge> 12 \<and>
      audioBuffer ! 0 = 0x52 \<and> audioBuffer ! 1 = 0x49 \<and>
      audioBuffer ! 2 = 0x46 \<and> audioBuffer ! 3 = 0x46 \<and>
      audioBuffer ! 8 = 0x57 \<and> audioBuffer ! 9 = 0x41 \<and>
      audioBuffer ! 10 = 0x56 \<and> audioBuffer ! 11 = 0x45)"

definition CRLF :: string where "CRLF = [CHR 0x0D, CHR 0x0A]"

text \<open>The \<open>parts\<close> array of lines 474-524, already as bytes; \<open>now\<close> is \<open>Date.now()\<close>.\<close>

definition boundary_of :: "nat \<Rightarrow> string" where
  "boundary_of now = ''----WhisperBoundary'' @ show_nat now"

definition file_part :: "string \<Rightarrow> bool \<Rightarrow> string" where
  "file_part boundary wav =
     ''--'' @ boundary @ CRLF @
     ''Content-Disposition: form-data; name='' @ [dquote] @ ''file'' @ [dquote] @
       ''; filename='' @ [dquote] @ (if wav then ''audio.wav'' else ''audio.webm'') @ [dquote] @ CRLF @
     ''Content-Type: '' @ (if wav then ''audio/wav'' else ''audio/webm'') @ CRLF @ CRLF"

definition field_part :: "string \<Rightarrow> string \<Rightarrow> string \<Rightarrow> string" where
  "field_part boundary name v =
     ''--'' @ boundary @ CRLF @
     ''Content-Disposition: form-data; name='' @ [dquote] @ name @ [dquote] @ CRLF @ CRLF @
     v @ CRLF"

definition multipart_parts :: "nat \<Rightarrow> byte list \<Rightarrow> transcribe_options \<Rightarrow> byte list list" where
  "multipart_parts now audioBuffer opts =
     (let boundary = boundary_of now
      in [bytes_of (file_part boundary (isWav audioBuffer)), audioBuffer, bytes_of CRLF]
         @ (if truthy (t_language opts) \<and> t_language opts \<noteq> Some ''auto''
            then [bytes_of (field_part boundary ''language'' (or_empty (t_language opts)))] else [])
         @ (if truthy (t_initialPrompt opts)
            then [bytes_of (field_part boundary ''prompt'' (or_empty (t_initialPrompt opts)))] else [])
         @ [bytes_of (field_part boundary ''response_format'' ''json''),
            bytes_of (''--'' @ boundary @ ''--'' @ CRLF)])"

definition inference_request :: "nat \<Rightarrow> byte list \<Rightarrow> transcribe_options \<Rightarrow> manager \<Rightarrow> http_request" where
  "inference_request now audioBuffer opts m =
     (let body = concat (multipart_parts now audioBuffer opts)
      in \<lparr>req_hostname = LOOPBACK, req_port = port m, req_path = ''/inference'', req_method = ''POST'',
          req_content_type = ''multipart/form-data; boundary='' @ boundary_of now,
          req_content_length = length body, req_timeout = 300000, req_body = body\<rparr>)"

text \<open>Lines 456-527: the checks made before anything is sent.\<close>

definition transcribe_prepare ::
  "nat \<Rightarrow> byte list \<Rightarrow> transcribe_options \<Rightarrow> manager \<Rightarrow> error + http_request" where
  "transcribe_prepare now audioBuffer opts m =
     (if \<not> ready m \<or> process m = None then Inl ServerNotRunning
      else if \<not> isWav audioBuffer \<and> \<not> canConvert m then Inl UnsupportedFormat
      else Inr (inference_request now audioBuffer opts m))"

text \<open>What comes back for a request: a response with status and body, a transport
  error, or the \<open>timeout\<close> event.\<close>

datatype http_answer = Response nat string | TransportError string | TimedOut

text \<open>Lines 544-577; \<open>parse\<close> is \<open>JSON.parse\<close>, \<open>Inl\<close> the message of the error it throws.\<close>

definition transcribe_settle :: "(string \<Rightarrow> string + 'j) \<Rightarrow> http_answer \<Rightarrow> error + 'j" where
  "transcribe_settle parse ans =
     (case ans of
        Response status data \<Rightarrow>
          if status \<noteq> 200 then Inl (InferenceError status data)
          else (case parse data of Inl msg \<Rightarrow> Inl (MalformedResponse msg) | Inr v \<Rightarrow> Inr v)
      | TransportError msg \<Rightarrow> Inl (RequestFailed msg)
      | TimedOut \<Rightarrow> Inl RequestTimedOut)"

definition transcribe ::
  "nat \<Rightarrow> (http_request \<Rightarrow> http_answer) \<Rightarrow> (string \<Rightarrow> string + 'j) \<Rightarrow>
   byte list \<Rightarrow> transcribe_options \<Rightarrow> manager \<Rightarrow> (error + 'j) \<times> manager" where
  "transcribe now network parse audioBuffer opts m =
     (case transcribe_prepare now audioBuffer opts m of
        Inl e \<Rightarrow> (Inl e, m)
      | Inr req \<Rightarrow> (transcribe_settle parse (network req), emit [HttpSend req] m))"

subsection \<open>Status (lines 625-636)\<close>

record status =
  st_available :: bool
  st_running :: bool
  st_port :: "nat option"
  st_modelPath :: "string option"
  st_modelName :: "string option"
  st_usingCuda :: bool
  st_cudaAvailable :: bool
  st_cudaBinaryAvailable :: bool

definition getStatus :: "host \<Rightarrow> manager \<Rightarrow> status \<times> manager" where
  "getStatus h m =
     (case isAvailable h m of
        (av, m1) \<Rightarrow>
          (case checkCudaAvailable h m1 of
             (ca, m2) \<Rightarrow>
               (case isCudaBinaryAvailable h m2 of
                  (cb, m3) \<Rightarrow>
                    (\<lparr>st_available = av,
                      st_running = (ready m1 \<and> process m1 \<noteq> None),
                      st_port = port m1,
                      st_modelPath = modelPath m1,
                      st_modelName = (if truthy (modelPath m1)
                                      then Some (replace_first ''ggml-'' []
                                                   (path_basename h (or_empty (modelPath m1)) ''.bin''))
                                      else None),
                      st_usingCuda = usingCuda m1,
                      st_cudaAvailable = ca,
                      st_cudaBinaryAvailable = cb\<rparr>, m3))))"

subsection \<open>Interleavings\<close>

text \<open>
  Calls and callbacks interleave at the \<open>await\<close> points and nowhere else. One step of
  the relation below is one piece of code that runs without suspending, with any
  arguments and any answer of the outside world; an execution of the manager, with
  any number of calls in flight, is a sequence of such steps from \<open>new_manager\<close>.
  The rule \<open>kill_marked\<close> covers \<open>killProcess\<close>, which may set the \<open>killed\<close> flag of
  the handle it is given.
\<close>

inductive step :: "host \<Rightarrow> manager \<Rightarrow> manager \<Rightarrow> bool" for h :: host where
  status: "step h m (snd (getStatus h m))"
| locate_server: "step h m (snd (getServerBinaryPath h u m))"
| locate_ffmpeg: "step h m (snd (getFFmpegPath h m))"
| probe_cuda: "step h m (snd (checkCudaAvailable h m))"
| clear_cache: "step h m (clearCudaBinaryCache m)"
| resolve: "step h m (snd (doStart_resolve h mp opts m))"
| store_promise: "step h m (m\<lparr>startupPromise := Some j\<rparr>)"
| clear_promise: "step h m (m\<lparr>startupPromise := None\<rparr>)"
| listen: "step h m (isPortAvailable_listen p m)"
| bind_settled: "step h m (snd (isPortAvailable_settle p ok m))"
| spawn: "step h m (doStart_spawn h mp opts bin p m)"
| probe_sent: "step h m (checkHealth_send m)"
| became_ready: "step h m (m\<lparr>ready := True\<rparr>)"
| polling_started: "step h m (startHealthCheck m)"
| polling_stopped: "step h m (stopHealthCheck m)"
| child_error: "step h m (on_error m)"
| child_close: "step h m (on_close m)"
| tick_begin: "step h m (snd (healthTick_begin m))"
| tick_end: "step h m (healthTick_end ok m)"
| stop_begun: "step h m (snd (stop_begin t m))"
| stop_timer_fired: "step h m (snd (stop_timer k m))"
| stop_finished: "step h m (stop_reset m)"
| kill_marked: "step h m (m\<lparr>process := map_option (\<lambda>c. c\<lparr>killed := True\<rparr>) (process m)\<rparr>)"
| request_sent: "step h m (emit [HttpSend req] m)"

definition reachable :: "host \<Rightarrow> manager \<Rightarrow> bool" where
  "reachable h m = (step h)\<^sup>*\<^sup>* new_manager m"

subsection \<open>The event loop for calls of start\<close>

text \<open>
  Several calls of \<open>start\<close> can be suspended at once. A \<open>call\<close> records where one call
  of \<open>start\<close> is suspended: at line 263 inside its \<open>stop()\<close> (waiting at line 597 for
  the \<open>close\<close> event of a child, with the grace timer armed or already fired), at
  line 268 on the promise it stored in \<open>startupPromise\<close>, or outside, holding the
  in-flight promise that line 255 handed back. A \<open>job\<close> is one run of \<open>_doStart\<close>,
  suspended in the port scan (line 237), in a readiness probe (line 394) or in the
  pause after it (line 403), with its child, its \<open>startTime\<close> and its variables
  \<open>stderrBuffer\<close> and \<open>exitCode\<close>. Jobs are numbered in the order of their creation and
  \<open>startupPromise\<close> holds the number of a job.

  An \<open>event\<close> is a call of \<open>start\<close> or an answer of the outside world; \<open>exec\<close> runs the
  code that the event triggers up to the next suspension, continuations in the order
  in which the promise jobs are queued (\<open>None\<close>: nothing is waiting for that event).
  \<open>k c sig\<close> says whether \<open>killProcess\<close> throws for child \<open>c\<close> and signal \<open>sig\<close>.
  The promise hops between the answer to a port test and the resumption of
  \<open>_doStart\<close> at line 298 are part of the step \<open>PortAnswer\<close>: what another job does
  in between (a \<open>listen\<close> on the next port) appears after the spawn in the record
  of external actions.
\<close>

datatype call =
    AwaitingStop nat bool string start_options   \<comment> \<open>child waited for, timer armed, \<open>modelPath\<close>, \<open>options\<close>\<close>
  | AwaitingStart nat                            \<comment> \<open>the job whose promise the call stored\<close>
  | Holding nat                                  \<comment> \<open>the job whose promise the call was handed\<close>
  | Returned "error + unit"                      \<comment> \<open>the outcome seen by the caller\<close>

datatype job =
    Scanning string start_options string nat     \<comment> \<open>\<open>modelPath\<close>, \<open>options\<close>, \<open>serverBinary\<close>, port under test\<close>
  | Probing nat nat startup_info                 \<comment> \<open>child, \<open>startTime\<close>, \<open>stderrBuffer\<close> and \<open>exitCode\<close>\<close>
  | Pausing nat nat startup_info
  | Done "error + unit"                          \<comment> \<open>the promise is fulfilled or rejected\<close>

record loop =
  mgr :: manager
  calls :: "call list"
  jobs :: "job list"
  closed :: "nat list"
  clock :: nat

definition new_loop :: loop where
  "new_loop = \<lparr>mgr = new_manager, calls = [], jobs = [], closed = [], clock = 0\<rparr>"

datatype event =
    CallStart string start_options   \<comment> \<open>\<open>start(modelPath, options)\<close> is called\<close>
  | PortAnswer nat bool              \<comment> \<open>job: \<open>listening\<close> (true) or \<open>error\<close> on its port test\<close>
  | HealthAnswer nat bool            \<comment> \<open>job: the answer of its readiness probe\<close>
  | PauseOver nat                    \<comment> \<open>job: the poll timer fires\<close>
  | ChildStderr nat string           \<comment> \<open>child: data on standard error\<close>
  | ChildError nat string            \<comment> \<open>child: \<open>error\<close> event\<close>
  | ChildClose nat "int option"      \<comment> \<open>child: \<open>close\<close> event with the exit code\<close>
  | GraceOver nat                    \<comment> \<open>call: the grace timer of its \<open>stop()\<close> fires\<close>
  | TimePasses nat                   \<comment> \<open>the clock advances by so many milliseconds\<close>

text \<open>The promise of job \<open>j\<close> settles with \<open>r\<close>: the call that created it runs its
  \<open>finally\<close> (line 270), and every call waiting for it returns \<open>r\<close>.\<close>

definition settle :: "nat \<Rightarrow> error + unit \<Rightarrow> loop \<Rightarrow> loop" where
  "settle j r s =
     s\<lparr>jobs := (jobs s)[j := Done r],
       calls := map (\<lambda>c. if c = AwaitingStart j \<or> c = Holding j then Returned r else c) (calls s),
       mgr := (if AwaitingStart j \<in> set (calls s) then (mgr s)\<lparr>startupPromise := None\<rparr> else mgr s)\<rparr>"

text \<open>\<open>waitForReady\<close> from its first line to its first \<open>await\<close>, for job \<open>j\<close> and child \<open>c\<close>.\<close>

definition enter_loop :: "nat \<Rightarrow> nat \<Rightarrow> loop \<Rightarrow> loop" where
  "enter_loop j c s =
     (case waitForReady_head 0 no_info (mgr s) of
        Some e \<Rightarrow> settle j (Inl e) s
      | None \<Rightarrow> s\<lparr>jobs := (jobs s)[j := Probing c (clock s) no_info],
                   mgr := checkHealth_send (mgr s)\<rparr>)"

text \<open>Lines 266-268 for call \<open>i\<close>: \<open>_doStart\<close> runs to its first \<open>await\<close>, the promise is
  stored, and the call waits for it.\<close>

definition launch :: "host \<Rightarrow> nat \<Rightarrow> string \<Rightarrow> start_options \<Rightarrow> loop \<Rightarrow> loop" where
  "launch h i mp opts s =
     (let j = length (jobs s)
      in case doStart_resolve h mp opts (mgr s) of
           (Inl e, m1) \<Rightarrow>
             settle j (Inl e)
               (s\<lparr>mgr := m1\<lparr>startupPromise := Some j\<rparr>, jobs := jobs s @ [Done (Inl e)],
                  calls := (calls s)[i := AwaitingStart j]\<rparr>)
         | (Inr bin, m1) \<Rightarrow>
             if PORT_RANGE_START \<le> PORT_RANGE_END then
               s\<lparr>mgr := (isPortAvailable_listen PORT_RANGE_START m1)\<lparr>startupPromise := Some j\<rparr>,
                 jobs := jobs s @ [Scanning mp opts bin PORT_RANGE_START],
                 calls := (calls s)[i := AwaitingStart j]\<rparr>
             else
               settle j (Inl NoPortAvailable)
                 (s\<lparr>mgr := m1\<lparr>startupPromise := Some j\<rparr>, jobs := jobs s @ [Done (Inl NoPortAvailable)],
                    calls := (calls s)[i := AwaitingStart j]\<rparr>))"

text \<open>The calls waiting in \<open>stop()\<close> for the \<open>close\<close> event of child \<open>c\<close>, with their index.\<close>

fun stop_waiters :: "nat \<Rightarrow> call list \<Rightarrow> nat \<Rightarrow> (nat \<times> string \<times> start_options) list" where
  "stop_waiters c [] i = []"
| "stop_waiters c (AwaitingStop c' armed mp opts # cs) i =
     (if c' = c then (i, mp, opts) # stop_waiters c cs (Suc i) else stop_waiters c cs (Suc i))"
| "stop_waiters c (x # cs) i = stop_waiters c cs (Suc i)"

text \<open>The assignments to \<open>exitCode\<close> and \<open>stderrBuffer\<close> of the job that spawned child \<open>c\<close>.\<close>

fun note_exit :: "nat \<Rightarrow> int option \<Rightarrow> job \<Rightarrow> job" where
  "note_exit c code (Probing c' t i) = (if c' = c then Probing c' t (i\<lparr>exitCode := code\<rparr>) else Probing c' t i)"
| "note_exit c code (Pausing c' t i) = (if c' = c then Pausing c' t (i\<lparr>exitCode := code\<rparr>) else Pausing c' t i)"
| "note_exit c code j = j"

fun note_stderr :: "nat \<Rightarrow> string \<Rightarrow> job \<Rightarrow> job" where
  "note_stderr c d (Probing c' t i) =
     (if c' = c then Probing c' t (i\<lparr>stderrBuffer := stderrBuffer i @ d\<rparr>) else Probing c' t i)"
| "note_stderr c d (Pausing c' t i) =
     (if c' = c then Pausing c' t (i\<lparr>stderrBuffer := stderrBuffer i @ d\<rparr>) else Pausing c' t i)"
| "note_stderr c d j = j"

definition throws_for :: "(nat \<Rightarrow> signal \<Rightarrow> bool) \<Rightarrow> signal \<Rightarrow> manager \<Rightarrow> bool" where
  "throws_for k sig m = (case process m of None \<Rightarrow> False | Some c \<Rightarrow> k (child_id c) sig)"

definition exec :: "host \<Rightarrow> (nat \<Rightarrow> signal \<Rightarrow> bool) \<Rightarrow> event \<Rightarrow> loop \<Rightarrow> loop option" where
  "exec h k ev s =
     (case ev of
        CallStart mp opts \<Rightarrow>
          (let i = length (calls s)
           in case start_decide mp opts (mgr s) of
                JoinInFlight p \<Rightarrow>
                  Some (s\<lparr>calls := calls s @
                           [if p < length (jobs s)
                            then (case jobs s ! p of Done r \<Rightarrow> Returned r | _ \<Rightarrow> Holding p)
                            else Holding p]\<rparr>)
              | NoOp \<Rightarrow> Some (s\<lparr>calls := calls s @ [Returned (Inr ())]\<rparr>)
              | StopFirst \<Rightarrow>
                  (case stop_begin (throws_for k SIGTERM (mgr s)) (mgr s) of
                     (StopReturned, m1) \<Rightarrow>
                       Some (launch h i mp opts (s\<lparr>mgr := m1, calls := calls s @ [AwaitingStart 0]\<rparr>))
                   | (StopWaiting c, m1) \<Rightarrow>
                       Some (s\<lparr>mgr := m1, calls := calls s @ [AwaitingStop c True mp opts]\<rparr>))
              | Proceed \<Rightarrow> Some (launch h i mp opts (s\<lparr>calls := calls s @ [AwaitingStart 0]\<rparr>)))
      | PortAnswer j ok \<Rightarrow>
          (if j < length (jobs s) then
             (case jobs s ! j of
                Scanning mp opts bin p \<Rightarrow>
                  (case isPortAvailable_settle p ok (mgr s) of
                     (True, m1) \<Rightarrow>
                       Some (enter_loop j (spawn_count m1) (s\<lparr>mgr := doStart_spawn h mp opts bin p m1\<rparr>))
                   | (False, m1) \<Rightarrow>
                       if p + 1 \<le> PORT_RANGE_END then
                         Some (s\<lparr>mgr := isPortAvailable_listen (p + 1) m1,
                                 jobs := (jobs s)[j := Scanning mp opts bin (p + 1)]\<rparr>)
                       else Some (settle j (Inl NoPortAvailable) (s\<lparr>mgr := m1\<rparr>)))
              | _ \<Rightarrow> None)
           else None)
      | HealthAnswer j ok \<Rightarrow>
          (if j < length (jobs s) then
             (case jobs s ! j of
                Probing c t0 i \<Rightarrow>
                  if ok then
                    Some (settle j (Inr ()) (s\<lparr>mgr := startHealthCheck ((mgr s)\<lparr>ready := True\<rparr>)\<rparr>))
                  else Some (s\<lparr>jobs := (jobs s)[j := Pausing c t0 i]\<rparr>)
              | _ \<Rightarrow> None)
           else None)
      | PauseOver j \<Rightarrow>
          (if j < length (jobs s) then
             (case jobs s ! j of
                Pausing c t0 i \<Rightarrow>
                  (case waitForReady_head (clock s - t0) i (mgr s) of
                     Some e \<Rightarrow> Some (settle j (Inl e) s)
                   | None \<Rightarrow> Some (s\<lparr>jobs := (jobs s)[j := Probing c t0 i],
                                      mgr := checkHealth_send (mgr s)\<rparr>))
              | _ \<Rightarrow> None)
           else None)
      | ChildStderr c d \<Rightarrow>
          (if c < spawn_count (mgr s) \<and> c \<notin> set (closed s)
           then Some (s\<lparr>jobs := map (note_stderr c d) (jobs s)\<rparr>) else None)
      | ChildError c msg \<Rightarrow>
          (if c < spawn_count (mgr s) \<and> c \<notin> set (closed s)
           then Some (s\<lparr>mgr := on_error (mgr s)\<rparr>) else None)
      | ChildClose c code \<Rightarrow>
          (if c < spawn_count (mgr s) \<and> c \<notin> set (closed s) then
             (let ws = stop_waiters c (calls s) 0;
                  s1 = s\<lparr>mgr := on_close (mgr s), jobs := map (note_exit c code) (jobs s),
                         closed := closed s @ [c]\<rparr>;
                  s2 = s1\<lparr>mgr := fold (\<lambda>w m. stop_reset m) ws (mgr s1)\<rparr>
              in Some (fold (\<lambda>(i, mp, opts) t. launch h i mp opts t) ws s2))
           else None)
      | GraceOver i \<Rightarrow>
          (if i < length (calls s) then
             (case calls s ! i of
                AwaitingStop c True mp opts \<Rightarrow>
                  (case stop_timer (throws_for k SIGKILL (mgr s)) (mgr s) of
                     (True, m1) \<Rightarrow> Some (launch h i mp opts (s\<lparr>mgr := stop_reset m1\<rparr>))
                   | (False, m1) \<Rightarrow>
                       Some (s\<lparr>mgr := m1, calls := (calls s)[i := AwaitingStop c False mp opts]\<rparr>))
              | _ \<Rightarrow> None)
           else None)
      | TimePasses n \<Rightarrow> Some (s\<lparr>clock := clock s + n\<rparr>))"

fun run :: "host \<Rightarrow> (nat \<Rightarrow> signal \<Rightarrow> bool) \<Rightarrow> event list \<Rightarrow> loop \<Rightarrow> loop option" where
  "run h k [] s = Some s"
| "run h k (ev # evs) s = (case exec h k ev s of None \<Rightarrow> None | Some s' \<Rightarrow> run h k evs s')"

subsection \<open>A sample host\<close>

text \<open>
  A Linux host with the CPU binary installed in the packaged resource directory, no
  accelerated binary and no FFmpeg; \<open>path.join\<close> joins with a slash. The theorems
  below are instantiated on it.
\<close>

fun join_slash :: "string list \<Rightarrow> string" where
  "join_slash [] = []"
| "join_slash [x] = x"
| "join_slash (x # y # ys) = x @ ''/'' @ join_slash (y # ys)"

definition cpu_binary :: string where
  "cpu_binary = ''/opt/app/bin/whisper-server-linux-x64-cpu''"

definition base_model :: string where
  "base_model = ''/models/ggml-base.bin''"

definition linux_host :: host where
  "linux_host = \<lparr>platform = ''linux'', arch = ''x64'', resourcesPath = Some ''/opt/app'',
     dirname = ''/src/helpers'', env_PATH = Some ''/usr/bin'', ffmpeg_static = None,
     existsSync = (\<lambda>p. p = cpu_binary \<or> p = base_model \<or> p = ''/models/ggml-tiny.bin''),
     statSync_ok = (\<lambda>p. True), access_X_OK = (\<lambda>p. True),
     path_join = join_slash, path_normalize = (\<lambda>p. p),
     path_dirname = (\<lambda>p. ''/opt/app/bin''), path_basename = (\<lambda>p ext. ''ggml-base''),
     nvidia_smi_ok = False\<rparr>"

definition quiet_round :: "bool \<Rightarrow> round" where
  "quiet_round ok = \<lparr>probe_ok = ok, probe_ms = 20, probe_events = [], pause_extra = 0, pause_events = []\<rparr>"

definition graceful_stop :: stop_answers where
  "graceful_stop = \<lparr>term_throws = False, closes_in_grace = True, kill_throws = False, closes_later = False\<rparr>"

text \<open>Every port is free and the second readiness probe succeeds.\<close>

definition good_answers :: start_answers where
  "good_answers = \<lparr>stop_ans = graceful_stop, port_free = (\<lambda>p. True),
     startup_rounds = (\<lambda>k. quiet_round (k = 1))\<rparr>"


definition cuda_opts :: start_options where
  "cuda_opts = \<lparr>opt_useCuda = Some True, opt_threads = None, opt_language = None\<rparr>"

definition cpu_opts :: start_options where
  "cpu_opts = \<lparr>opt_useCuda = None, opt_threads = None, opt_language = None\<rparr>"

text \<open>The state in which \<open>start\<close> on the sample host leaves a new manager.\<close>

definition ready_manager :: manager where
  "ready_manager =
     \<lparr>process = Some \<lparr>child_id = 0, killed = False\<rparr>, port = Some 8178,
      ready = True, modelPath = Some base_model,
      startupPromise = None, healthCheckInterval = True,
      cachedServerBinaryPath = Some cpu_binary,
      cachedCudaBinaryPath = None, cachedFFmpegPath = None,
      canConvert = False, usingCuda = False, cudaAvailable = None,
      effects =
        [Listen 8178 LOOPBACK, CloseListener 8178,
         Spawn 0 cpu_binary
           [''--model'', base_model, ''--host'', ''127.0.0.1'', ''--port'', ''8178'']
           ''/opt/app/bin'' ''/opt/app/bin:/usr/bin'',
         HealthGet (Some 8178), HealthGet (Some 8178),
         SetInterval HEALTH_CHECK_INTERVAL_MS]\<rparr>"

text \<open>A minimal payload with the RIFF/WAVE signature, one without it, and a call of
  \<open>transcribe\<close> with no options.\<close>

definition wav_header :: "byte list" where
  "wav_header = bytes_of ''RIFF'' @ [0x24, 0, 0, 0] @ bytes_of ''WAVE''"

definition webm_header :: "byte list" where
  "webm_header = [0x1A, 0x45, 0xDF, 0xA3, 0x9F, 0x42, 0x86, 0x81, 0x01, 0x42, 0xF7, 0x81]"

definition plain_opts :: transcribe_options where
  "plain_opts = \<lparr>t_language = None, t_initialPrompt = None\<rparr>"

definition ok_network :: "http_request \<Rightarrow> http_answer" where
  "ok_network req = Response 200 ''{}''"

definition raw_parse :: "string \<Rightarrow> string + string" where
  "raw_parse s = Inr s"

text \<open>
  Two traces on the sample host. \<open>first_start\<close> is one call of \<open>start\<close> that succeeds at
  its second probe. \<open>racing_starts\<close> is then two calls of \<open>start\<close> with the same
  arguments, for another model, issued one after the other before anything else
  happens; then the old child closes, the port tests of the two jobs are answered
  (the second job finds 8178 taken and 8179 free). \<open>ready_loop\<close> and \<open>race_loop\<close> are the
  states after the first and after both traces.
\<close>

definition tiny_model :: string where "tiny_model = ''/models/ggml-tiny.bin''"

definition never_throws :: "nat \<Rightarrow> signal \<Rightarrow> bool" where
  "never_throws c sig = False"

definition first_start :: "event list" where
  "first_start = [CallStart base_model cuda_opts, PortAnswer 0 True, HealthAnswer 0 False,
     TimePasses 120, PauseOver 0, HealthAnswer 0 True]"

definition racing_starts :: "event list" where
  "racing_starts = [CallStart tiny_model cuda_opts, CallStart tiny_model cuda_opts,
     ChildClose 0 (Some 0), PortAnswer 1 True, PortAnswer 2 False, PortAnswer 2 True]"


definition ready_loop :: loop where
  "ready_loop = \<lparr>mgr = ready_manager, calls = [Returned (Inr ())], jobs = [Done (Inr ())],
     closed = [], clock = 120\<rparr>"

definition race_loop :: loop where
  "race_loop =
     \<lparr>mgr =
        \<lparr>process = Some \<lparr>child_id = 2, killed = False\<rparr>, port = Some 8179,
         ready = False, modelPath = Some tiny_model,
         startupPromise = Some 2, healthCheckInterval = False,
         cachedServerBinaryPath = Some cpu_binary,
         cachedCudaBinaryPath = None, cachedFFmpegPath = None,
         canConvert = False, usingCuda = False, cudaAvailable = None,
         effects = effects ready_manager @
           [ClearInterval, Kill 0 SIGTERM, Kill 0 SIGTERM,
            Listen 8178 LOOPBACK, Listen 8178 LOOPBACK, CloseListener 8178,
            Spawn 1 cpu_binary
              [''--model'', tiny_model, ''--host'', ''127.0.0.1'', ''--port'', ''8178'']
              ''/opt/app/bin'' ''/opt/app/bin:/usr/bin'',
            HealthGet (Some 8178),
            Listen 8179 LOOPBACK, CloseListener 8179,
            Spawn 2 cpu_binary
              [''--model'', tiny_model, ''--host'', ''127.0.0.1'', ''--port'', ''8179'']
              ''/opt/app/bin'' ''/opt/app/bin:/usr/bin'',
            HealthGet (Some 8179)]\<rparr>,
      calls = [Returned (Inr ()), AwaitingStart 1, AwaitingStart 2],
      jobs = [Done (Inr ()), Probing 1 120 no_info, Probing 2 120 no_info],
      closed = [0], clock = 120\<rparr>"

section \<open>Properties\<close>

subsection \<open>Signals\<close>

lemma killProcess_throws [simp]:
  "killProcess True c sig m = (Some (KillFailed sig), emit [Kill (child_id c) sig] m)"
  by (simp add: killProcess_def)

lemma killProcess_returns [simp]:
  "killProcess False c sig m = (None, emit [Kill (child_id c) sig] m)"
  by (simp add: killProcess_def)

subsection \<open>Port allocator\<close>

lemma findAvailablePort_from_scan:
  "p \<le> Suc PORT_RANGE_END \<Longrightarrow>
   findAvailablePort_from bindable p m =
     ((case List.find bindable [p ..< Suc PORT_RANGE_END] of
         None \<Rightarrow> Inl NoPortAvailable | Some q \<Rightarrow> Inr q),
      emit (probe_trace bindable [p ..< Suc PORT_RANGE_END]) m)"
proof (induction bindable p m rule: findAvailablePort_from.induct)
  case (1 bindable p m)
  show ?case
  proof (cases "p \<le> PORT_RANGE_END")
    case False
    with "1.prems" have "p = Suc PORT_RANGE_END" by simp
    then show ?thesis by (simp add: emit_def)
  next
    case True
    then have range: "[p ..< Suc PORT_RANGE_END] = p # [p + 1 ..< Suc PORT_RANGE_END]"
      by (simp add: upt_conv_Cons)
    show ?thesis
    proof (cases "bindable p")
      case True
      with \<open>p \<le> PORT_RANGE_END\<close> range show ?thesis
        by (simp add: isPortAvailable_def isPortAvailable_settle_def isPortAvailable_listen_def emit_def)
    next
      case False
      have call: "isPortAvailable bindable p m = (False, emit [Listen p LOOPBACK] m)"
        using False by (simp add: isPortAvailable_def isPortAvailable_settle_def isPortAvailable_listen_def)
      have "findAvailablePort_from bindable p m =
              findAvailablePort_from bindable (p + 1) (emit [Listen p LOOPBACK] m)"
        using \<open>p \<le> PORT_RANGE_END\<close> call by simp
      also have "\<dots> = ((case List.find bindable [p + 1 ..< Suc PORT_RANGE_END] of
                           None \<Rightarrow> Inl NoPortAvailable | Some q \<Rightarrow> Inr q),
                        emit (probe_trace bindable [p + 1 ..< Suc PORT_RANGE_END])
                          (emit [Listen p LOOPBACK] m))"
        using "1.IH" [OF \<open>p \<le> PORT_RANGE_END\<close> call [symmetric] refl] \<open>p \<le> PORT_RANGE_END\<close>
        by simp
      finally show ?thesis
        using False range by (simp add: emit_def)
    qed
  qed
qed

lemma find_upt_first:
  "List.find P [a ..< b] = Some q \<Longrightarrow> a \<le> q \<and> q < b \<and> P q \<and> (\<forall>p. a \<le> p \<and> p < q \<longrightarrow> \<not> P p)"
proof -
  assume "List.find P [a ..< b] = Some q"
  then obtain i where i: "i < b - a" "P (a + i)" "q = a + i" "\<forall>j<i. \<not> P (a + j)"
    by (auto simp: find_Some_iff)
  have "\<not> P p" if "a \<le> p" "p < q" for p
  proof -
    from that i(3) have "p - a < i" "p = a + (p - a)" by simp_all
    with i(4) show ?thesis by metis
  qed
  with i show ?thesis by simp
qed

lemma find_upt_none:
  "List.find P [a ..< b] = None \<Longrightarrow> (\<forall>p. a \<le> p \<and> p < b \<longrightarrow> \<not> P p)"
  by (auto simp: find_None_iff)


text \<open>
  Claim C7. \<open>findAvailablePort\<close> scans the inclusive range 8178 to 8199 in ascending
  order. Each candidate is tested by a listener bound to the loopback address, which
  is closed at once when the bind succeeds. The result is the first port that can be
  bound; when no port of the range can be bound the result is the error
  \<open>NoPortAvailable\<close>. Nothing outside the range is tried and no field of the manager
  changes.
\<close>

theorem findAvailablePort_first_free:
  assumes "findAvailablePort bindable m = (r, m')"
  shows "PORT_RANGE_START = 8178 \<and> PORT_RANGE_END = 8199 \<and>
         m' = emit (probe_trace bindable [PORT_RANGE_START ..< Suc PORT_RANGE_END]) m \<and>
         (case r of
            Inr q \<Rightarrow> 8178 \<le> q \<and> q \<le> 8199 \<and> bindable q \<and> (\<forall>p. 8178 \<le> p \<and> p < q \<longrightarrow> \<not> bindable p)
          | Inl e \<Rightarrow> e = NoPortAvailable \<and> (\<forall>p. 8178 \<le> p \<and> p \<le> 8199 \<longrightarrow> \<not> bindable p))"
proof -
  let ?a = PORT_RANGE_START and ?b = "Suc PORT_RANGE_END"
  have ab: "?a \<le> ?b" by (simp add: PORT_RANGE_START_def PORT_RANGE_END_def)
  have eq: "(r, m') = ((case List.find bindable [?a ..< ?b] of
         None \<Rightarrow> Inl NoPortAvailable | Some q \<Rightarrow> Inr q),
      emit (probe_trace bindable [?a ..< ?b]) m)"
    using assms findAvailablePort_from_scan [OF ab, of bindable m]
    by (simp only: findAvailablePort_def)
  have m': "m' = emit (probe_trace bindable [?a ..< ?b]) m" using eq by simp
  have r: "(case r of
            Inr q \<Rightarrow> ?a \<le> q \<and> q < ?b \<and> bindable q \<and> (\<forall>p. ?a \<le> p \<and> p < q \<longrightarrow> \<not> bindable p)
          | Inl e \<Rightarrow> e = NoPortAvailable \<and> (\<forall>p. ?a \<le> p \<and> p < ?b \<longrightarrow> \<not> bindable p))"
  proof (cases "List.find bindable [?a ..< ?b]")
    case None
    with eq have "r = Inl NoPortAvailable" by simp
    with find_upt_none [OF None] show ?thesis by simp
  next
    case (Some q)
    with eq have "r = Inr q" by simp
    with find_upt_first [OF Some] show ?thesis by simp
  qed
  have c: "?a = 8178" "PORT_RANGE_END = 8199" by (simp_all add: PORT_RANGE_START_def PORT_RANGE_END_def)
  have lt: "\<And>x. x < ?b \<longleftrightarrow> x \<le> 8199" unfolding PORT_RANGE_END_def by arith
  from r have r': "(case r of
            Inr q \<Rightarrow> 8178 \<le> q \<and> q \<le> 8199 \<and> bindable q \<and> (\<forall>p. 8178 \<le> p \<and> p < q \<longrightarrow> \<not> bindable p)
          | Inl e \<Rightarrow> e = NoPortAvailable \<and> (\<forall>p. 8178 \<le> p \<and> p \<le> 8199 \<longrightarrow> \<not> bindable p))"
    unfolding lt c(1) .
  from c m' r' show ?thesis by blast
qed

theorem findAvailablePort_first_free_witness:
  "(\<exists>m'. findAvailablePort (\<lambda>p. p = 8180) new_manager = (Inr 8180, m') \<and>
         effects m' = [Listen 8178 LOOPBACK, Listen 8179 LOOPBACK, Listen 8180 LOOPBACK, CloseListener 8180]) \<and>
   fst (findAvailablePort (\<lambda>p. False) new_manager) = Inl NoPortAvailable"
proof -
  have none: "fst (findAvailablePort (\<lambda>p. False) new_manager) = Inl NoPortAvailable"
  proof -
    obtain r m' where run: "findAvailablePort (\<lambda>p. False) new_manager = (r, m')"
      by (cases "findAvailablePort (\<lambda>p. False) new_manager")
    from findAvailablePort_first_free [OF run] have "r = Inl NoPortAvailable"
      by (cases r) simp_all
    with run show ?thesis by simp
  qed
  obtain r m' where run: "findAvailablePort (\<lambda>p. p = 8180) new_manager = (r, m')"
    by (cases "findAvailablePort (\<lambda>p. p = 8180) new_manager")
  note facts = findAvailablePort_first_free [OF run]
  from facts have m': "m' = emit (probe_trace (\<lambda>p. p = 8180) [PORT_RANGE_START ..< Suc PORT_RANGE_END]) new_manager"
    by blast
  have "[PORT_RANGE_START ..< Suc PORT_RANGE_END] = 8178 # 8179 # 8180 # [8181 ..< 8200]"
    by (simp add: PORT_RANGE_START_def PORT_RANGE_END_def upt_conv_Cons)
  with m' have eff: "effects m' = [Listen 8178 LOOPBACK, Listen 8179 LOOPBACK, Listen 8180 LOOPBACK, CloseListener 8180]"
    by (simp add: emit_def new_manager_def)
  have "r = Inr 8180"
  proof (cases r)
    case (Inl e)
    with facts have "\<forall>p::nat. 8178 \<le> p \<and> p \<le> 8199 \<longrightarrow> p \<noteq> 8180" by simp
    then have "(8178::nat) \<le> 8180 \<and> (8180::nat) \<le> 8199 \<longrightarrow> (8180::nat) \<noteq> 8180" by (rule spec)
    then show ?thesis by simp
  next
    case (Inr q)
    with facts show ?thesis by simp
  qed
  with run eff none show ?thesis by simp
qed

subsection \<open>The sample host\<close>

lemma serverCandidates_linux_cuda:
  "serverCandidates linux_host True =
     [''/opt/app/bin/whisper-server-linux-x64-cuda'',
      ''/src/helpers/../../resources/bin/whisper-server-linux-x64-cuda'']"
  by (simp add: serverCandidates_def linux_host_def truthy_def or_empty_def Let_def)

lemma serverCandidates_linux_cpu:
  "serverCandidates linux_host False =
     [cpu_binary, ''/opt/app/bin/whisper-server-linux-x64'', ''/opt/app/bin/whisper-server'',
      ''/src/helpers/../../resources/bin/whisper-server-linux-x64-cpu'',
      ''/src/helpers/../../resources/bin/whisper-server-linux-x64'',
      ''/src/helpers/../../resources/bin/whisper-server'']"
  by (simp add: serverCandidates_def linux_host_def truthy_def or_empty_def Let_def cpu_binary_def)

lemma linux_fs:
  "existsSync linux_host = (\<lambda>p. p = cpu_binary \<or> p = base_model \<or> p = ''/models/ggml-tiny.bin'')"
  "statSync_ok linux_host = (\<lambda>p. True)"
  by (simp_all add: linux_host_def)

lemma linux_no_cuda_binary:
  "cachedCudaBinaryPath m = None \<Longrightarrow> getServerBinaryPath linux_host True m = (None, m)"
  by (simp add: getServerBinaryPath_def serverCandidates_linux_cuda linux_fs truthy_def
      cpu_binary_def base_model_def)

lemma linux_cpu_binary:
  "cachedServerBinaryPath m = None \<Longrightarrow>
   getServerBinaryPath linux_host False m = (Some cpu_binary, m\<lparr>cachedServerBinaryPath := Some cpu_binary\<rparr>)"
  by (simp add: getServerBinaryPath_def serverCandidates_linux_cpu linux_fs truthy_def)

lemma linux_cpu_binary_cached:
  "cachedServerBinaryPath m = Some cpu_binary \<Longrightarrow>
   getServerBinaryPath linux_host False m = (Some cpu_binary, m)"
  by (simp add: getServerBinaryPath_def truthy_def cpu_binary_def)

lemma linux_no_ffmpeg:
  "cachedFFmpegPath m = None \<Longrightarrow> getFFmpegPath linux_host m = (None, m)"
  by (simp add: getFFmpegPath_def bundledFFmpeg_def systemCandidates_def pathCandidates_def
      linux_host_def truthy_def or_empty_def strip_quotes_def dquote_def Let_def
      cpu_binary_def base_model_def)

lemma findAvailablePort_first:
  "bindable 8178 \<Longrightarrow>
   findAvailablePort bindable m = (Inr 8178, emit [Listen 8178 LOOPBACK, CloseListener 8178] m)"
  by (simp add: findAvailablePort_def PORT_RANGE_START_def PORT_RANGE_END_def isPortAvailable_def
      isPortAvailable_settle_def isPortAvailable_listen_def emit_def)

lemma show_nat_8178: "show_nat 8178 = ''8178''"
  by (simp add: digit_char_def)

lemma sample_resolve:
  "doStart_resolve linux_host base_model cuda_opts new_manager =
     (Inr cpu_binary, new_manager\<lparr>cachedServerBinaryPath := Some cpu_binary, usingCuda := False\<rparr>)"
proof -
  have c: "cachedCudaBinaryPath new_manager = None" "cachedServerBinaryPath new_manager = None"
    by (simp_all add: new_manager_def)
  show ?thesis
    by (simp add: doStart_resolve_def useCuda_of_def cuda_opts_def linux_no_cuda_binary [OF c(1)]
        linux_cpu_binary [OF c(2)] truthy_def or_empty_def linux_fs cpu_binary_def base_model_def)
qed

lemma sample_spawn:
  "doStart_spawn linux_host base_model cuda_opts cpu_binary 8178
     (emit [Listen 8178 LOOPBACK, CloseListener 8178]
        (new_manager\<lparr>cachedServerBinaryPath := Some cpu_binary, usingCuda := False\<rparr>)) =
   ready_manager\<lparr>ready := False, healthCheckInterval := False,
     effects := [Listen 8178 LOOPBACK, CloseListener 8178,
         Spawn 0 cpu_binary
           [''--model'', base_model, ''--host'', ''127.0.0.1'', ''--port'', ''8178'']
           ''/opt/app/bin'' ''/opt/app/bin:/usr/bin'']\<rparr>"
proof -
  have ff: "getFFmpegPath linux_host m = (None, m)" if "cachedFFmpegPath m = None" for m
    using that by (rule linux_no_ffmpeg)
  have h: "platform linux_host = ''linux''" "path_dirname linux_host = (\<lambda>p. ''/opt/app/bin'')"
    "env_PATH linux_host = Some ''/usr/bin''"
    by (simp_all add: linux_host_def)
  show ?thesis
    by (simp add: doStart_spawn_def ff new_manager_def emit_def h truthy_def or_empty_def
        spawn_args_def cuda_opts_def digit_char_def spawn_count_def ready_manager_def Let_def)
qed

lemma sample_wait:
  "waitForReady (\<lambda>k. quiet_round (k = 1))
     (ready_manager\<lparr>ready := False, healthCheckInterval := False,
     effects := [Listen 8178 LOOPBACK, CloseListener 8178,
         Spawn 0 cpu_binary
           [''--model'', base_model, ''--host'', ''127.0.0.1'', ''--port'', ''8178'']
           ''/opt/app/bin'' ''/opt/app/bin:/usr/bin'']\<rparr>) =
   (Inr (), ready_manager\<lparr>healthCheckInterval := False,
     effects := [Listen 8178 LOOPBACK, CloseListener 8178,
         Spawn 0 cpu_binary
           [''--model'', base_model, ''--host'', ''127.0.0.1'', ''--port'', ''8178'']
           ''/opt/app/bin'' ''/opt/app/bin:/usr/bin'', HealthGet (Some 8178), HealthGet (Some 8178)]\<rparr>)"
  by (simp add: waitForReady_def waitForReady_head_def quiet_round_def deliver_def checkHealth_send_def
      emit_def ready_manager_def no_info_def STARTUP_TIMEOUT_MS_def STARTUP_POLL_INTERVAL_MS_def)

lemma start_sample_run:
  "start linux_host good_answers base_model cuda_opts new_manager = (Settled (Inr ()), ready_manager)"
proof -
  have d: "start_decide base_model cuda_opts new_manager = Proceed"
    by (simp add: start_decide_def new_manager_def)
  have p: "port_free good_answers 8178" "startup_rounds good_answers = (\<lambda>k. quiet_round (k = 1))"
    by (simp_all add: good_answers_def)
  note f = findAvailablePort_first [of "port_free good_answers", OF p(1)]
  have "doStart linux_host good_answers base_model cuda_opts new_manager =
        (Inr (), startHealthCheck (ready_manager\<lparr>healthCheckInterval := False,
     effects := [Listen 8178 LOOPBACK, CloseListener 8178,
         Spawn 0 cpu_binary
           [''--model'', base_model, ''--host'', ''127.0.0.1'', ''--port'', ''8178'']
           ''/opt/app/bin'' ''/opt/app/bin:/usr/bin'', HealthGet (Some 8178), HealthGet (Some 8178)]\<rparr>))"
    by (simp only: doStart_def sample_resolve f sample_spawn p(2) sample_wait prod.case sum.case)
  then have "doStart linux_host good_answers base_model cuda_opts new_manager = (Inr (), ready_manager)"
    by (simp add: startHealthCheck_def stopHealthCheck_def emit_def ready_manager_def)
  then show ?thesis
    by (simp add: start_def d ready_manager_def)
qed

subsection \<open>Idempotence of start\<close>

text \<open>
  The test of line 260. When the manager is ready, holds the requested model path and
  its \<open>usingCuda\<close> flag equals the requested acceleration preference, \<open>start\<close> changes
  nothing: no field is written and no external action (stop, port probe, spawn) is
  performed. With no start in flight the call settles at once with success; with one
  in flight the caller is handed that promise.
\<close>

lemma start_noop_when_variant_matches:
  assumes "ready m" and "modelPath m = Some mp" and "usingCuda m = useCuda_of opts"
  shows "snd (start h a mp opts m) = m \<and>
         effects (snd (start h a mp opts m)) = effects m \<and>
         fst (start h a mp opts m) =
           (case startupPromise m of None \<Rightarrow> Settled (Inr ()) | Some p \<Rightarrow> Joined p)"
  using assms by (simp add: start_def start_decide_def split: option.splits)

lemma start_noop_sample:
  "start linux_host good_answers base_model cpu_opts ready_manager = (Settled (Inr ()), ready_manager)"
proof -
  have r: "ready ready_manager" "modelPath ready_manager = Some base_model"
    "usingCuda ready_manager = useCuda_of cpu_opts" "startupPromise ready_manager = None"
    by (simp_all add: ready_manager_def useCuda_of_def cpu_opts_def)
  from start_noop_when_variant_matches [OF r(1-3), of linux_host good_answers] r(4)
  show ?thesis by (simp add: prod_eq_iff)
qed

text \<open>The flag compared with the request is the variant in effect (line 295), not the
  preference of the request that was served. After a fallback to the CPU binary it is
  false, so the same accelerated request, repeated, is not recognised as already
  served.\<close>

lemma repeated_request_after_fallback:
  "start_decide base_model cuda_opts ready_manager = StopFirst"
  by (simp add: start_decide_def ready_manager_def useCuda_of_def cuda_opts_def)

subsection \<open>The language option\<close>

lemma spawn_args_language_auto:
  "spawn_args mp p c (opts\<lparr>opt_language := Some ''auto''\<rparr>) = spawn_args mp p c (opts\<lparr>opt_language := None\<rparr>)"
  by (simp add: spawn_args_def truthy_def)

lemma multipart_parts_language_auto:
  "multipart_parts now audio (topts\<lparr>t_language := Some ''auto''\<rparr>) =
   multipart_parts now audio (topts\<lparr>t_language := None\<rparr>)"
  by (simp add: multipart_parts_def truthy_def Let_def)

lemma doStart_language_auto:
  "doStart h a mp (opts\<lparr>opt_language := Some ''auto''\<rparr>) m = doStart h a mp (opts\<lparr>opt_language := None\<rparr>) m"
proof -
  have u: "useCuda_of (opts\<lparr>opt_language := Some ''auto''\<rparr>) = useCuda_of (opts\<lparr>opt_language := None\<rparr>)"
    by (simp add: useCuda_of_def)
  have r: "doStart_resolve h mp (opts\<lparr>opt_language := Some ''auto''\<rparr>) m =
           doStart_resolve h mp (opts\<lparr>opt_language := None\<rparr>) m"
    unfolding doStart_resolve_def u ..
  have s: "doStart_spawn h mp (opts\<lparr>opt_language := Some ''auto''\<rparr>) b p m' =
           doStart_spawn h mp (opts\<lparr>opt_language := None\<rparr>) b p m'" for b p m'
    unfolding doStart_spawn_def spawn_args_language_auto ..
  show ?thesis
    unfolding doStart_def r s ..
qed

text \<open>
  Claim C10. The language \<open>auto\<close> is treated as an absent language at both
  interfaces. A start with \<open>options.language = "auto"\<close> is the same run as one with no
  language: the child's command line is the fixed flags followed by the optional
  \<open>--convert\<close> and \<open>--threads\<close>, with no \<open>--language\<close>. A transcription with
  \<open>options.language = "auto"\<close> sends the same request as one with no language, and its
  body has no \<open>language\<close> field between the file part and the prompt.
\<close>

theorem language_auto_is_absent:
  "start h a mp (opts\<lparr>opt_language := Some ''auto''\<rparr>) m = start h a mp (opts\<lparr>opt_language := None\<rparr>) m \<and>
   spawn_args mp p c (opts\<lparr>opt_language := Some ''auto''\<rparr>) =
     [''--model'', mp, ''--host'', ''127.0.0.1'', ''--port'', show_nat p]
     @ (if c then [''--convert''] else [])
     @ (case opt_threads opts of None \<Rightarrow> [] | Some t \<Rightarrow> if t \<noteq> 0 then [''--threads'', show_int t] else []) \<and>
   transcribe now network parse audio (topts\<lparr>t_language := Some ''auto''\<rparr>) m =
     transcribe now network parse audio (topts\<lparr>t_language := None\<rparr>) m \<and>
   multipart_parts now audio (topts\<lparr>t_language := Some ''auto''\<rparr>) =
     [bytes_of (file_part (boundary_of now) (isWav audio)), audio, bytes_of CRLF]
     @ (if truthy (t_initialPrompt topts)
        then [bytes_of (field_part (boundary_of now) ''prompt'' (or_empty (t_initialPrompt topts)))] else [])
     @ [bytes_of (field_part (boundary_of now) ''response_format'' ''json''),
        bytes_of (''--'' @ boundary_of now @ ''--'' @ CRLF)]"
proof -
  have u: "useCuda_of (opts\<lparr>opt_language := Some ''auto''\<rparr>) = useCuda_of (opts\<lparr>opt_language := None\<rparr>)"
    by (simp add: useCuda_of_def)
  have d: "start_decide mp (opts\<lparr>opt_language := Some ''auto''\<rparr>) m = start_decide mp (opts\<lparr>opt_language := None\<rparr>) m"
    unfolding start_decide_def u ..
  have s: "start h a mp (opts\<lparr>opt_language := Some ''auto''\<rparr>) m = start h a mp (opts\<lparr>opt_language := None\<rparr>) m"
    unfolding start_def d doStart_language_auto ..
  have t: "transcribe now network parse audio (topts\<lparr>t_language := Some ''auto''\<rparr>) m =
     transcribe now network parse audio (topts\<lparr>t_language := None\<rparr>) m"
    unfolding transcribe_def transcribe_prepare_def inference_request_def multipart_parts_language_auto ..
  show ?thesis
    using s t by (simp add: spawn_args_def multipart_parts_def truthy_def Let_def)
qed

theorem language_auto_is_absent_witness:
  "fst (start linux_host good_answers base_model (cuda_opts\<lparr>opt_language := Some ''auto''\<rparr>) new_manager) =
     Settled (Inr ()) \<and>
   spawn_args base_model 8178 False (cuda_opts\<lparr>opt_language := Some ''auto''\<rparr>) =
     [''--model'', base_model, ''--host'', ''127.0.0.1'', ''--port'', ''8178'']"
proof -
  have o: "cuda_opts\<lparr>opt_language := None\<rparr> = cuda_opts" "opt_threads cuda_opts = None"
    by (simp_all add: cuda_opts_def)
  note t = language_auto_is_absent [of linux_host good_answers base_model cuda_opts new_manager
      8178 False 0 "\<lambda>r. TimedOut" "\<lambda>s. Inr s" "[]" "\<lparr>t_language = None, t_initialPrompt = None\<rparr>"]
  from t [THEN conjunct1] t [THEN conjunct2, THEN conjunct1]
  show ?thesis
    by (simp add: o start_sample_run digit_char_def)
qed

subsection \<open>Transcription requests\<close>

lemma take4_nth:
  "4 \<le> length xs \<Longrightarrow> take 4 xs = [xs ! 0, xs ! 1, xs ! 2, xs ! 3]"
  by (auto simp: list_eq_iff_nth_eq less_Suc_eq numeral_eq_Suc)

lemma isWav_signature:
  "isWav audio \<longleftrightarrow>
     12 \<le> length audio \<and> take 4 audio = bytes_of ''RIFF'' \<and> take 4 (drop 8 audio) = bytes_of ''WAVE''"
proof (cases "12 \<le> length audio")
  case False
  then show ?thesis by (simp add: isWav_def)
next
  case True
  then have a: "take 4 audio = [audio ! 0, audio ! 1, audio ! 2, audio ! 3]"
    by (simp add: take4_nth)
  from True have b: "take 4 (drop 8 audio) = [audio ! 8, audio ! 9, audio ! 10, audio ! 11]"
    by (simp add: take4_nth)
  have c: "bytes_of ''RIFF'' = [0x52, 0x49, 0x46, 0x46]" "bytes_of ''WAVE'' = [0x57, 0x41, 0x56, 0x45]"
    by (simp_all add: bytes_of_def)
  show ?thesis
    unfolding a b c using True by (auto simp: isWav_def)
qed

lemma isWav_wav_header: "isWav wav_header"
  by (simp add: isWav_signature wav_header_def bytes_of_def)

lemma not_isWav_webm_header: "\<not> isWav webm_header"
  by (simp add: isWav_def webm_header_def)

lemma transcribe_not_running:
  "\<not> (ready m \<and> process m \<noteq> None) \<Longrightarrow>
   transcribe now network parse audio topts m = (Inl ServerNotRunning, m)"
  by (auto simp: transcribe_def transcribe_prepare_def)

lemma transcribe_sends:
  "ready m \<Longrightarrow> process m \<noteq> None \<Longrightarrow> isWav audio \<or> canConvert m \<Longrightarrow>
   transcribe now network parse audio topts m =
     (transcribe_settle parse (network (inference_request now audio topts m)),
      emit [HttpSend (inference_request now audio topts m)] m)"
  by (auto simp: transcribe_def transcribe_prepare_def)

lemma transcribe_unsupported:
  "ready m \<Longrightarrow> process m \<noteq> None \<Longrightarrow> \<not> isWav audio \<Longrightarrow> \<not> canConvert m \<Longrightarrow>
   transcribe now network parse audio topts m = (Inl UnsupportedFormat, m)"
  by (auto simp: transcribe_def transcribe_prepare_def)

lemma inference_request_canConvert:
  "inference_request now audio topts (m\<lparr>canConvert := c\<rparr>) = inference_request now audio topts m"
  by (simp add: inference_request_def)

text \<open>
  Claim C6. A payload carries the signature exactly when it has at least 12 bytes,
  bytes 0-3 are \<open>RIFF\<close> and bytes 8-11 are \<open>WAVE\<close>. With the server running (ready,
  process owned), such a payload is sent whatever the value of \<open>canConvert\<close>: the
  request is written to the socket, its body is the concatenation of the parts, and
  the first two parts are the header with file name \<open>audio.wav\<close> and content type
  \<open>audio/wav\<close>, and the payload itself. A payload without the signature, with
  \<open>canConvert\<close> false, fails with \<open>UnsupportedFormat\<close> and nothing is sent: the state,
  with its record of external actions, is unchanged.
\<close>

theorem transcribe_format_sniffing:
  assumes "ready m" and "process m \<noteq> None"
  shows "(isWav audio \<longleftrightarrow>
            12 \<le> length audio \<and> take 4 audio = bytes_of ''RIFF'' \<and>
            take 4 (drop 8 audio) = bytes_of ''WAVE'') \<and>
         (isWav audio \<longrightarrow>
            transcribe now network parse audio topts (m\<lparr>canConvert := c\<rparr>) =
              (transcribe_settle parse (network (inference_request now audio topts m)),
               emit [HttpSend (inference_request now audio topts m)] (m\<lparr>canConvert := c\<rparr>)) \<and>
            req_body (inference_request now audio topts m) = concat (multipart_parts now audio topts) \<and>
            take 2 (multipart_parts now audio topts) =
              [bytes_of (''--'' @ boundary_of now @ CRLF @
                 ''Content-Disposition: form-data; name='' @ [dquote] @ ''file'' @ [dquote] @
                 ''; filename='' @ [dquote] @ ''audio.wav'' @ [dquote] @ CRLF @
                 ''Content-Type: audio/wav'' @ CRLF @ CRLF),
               audio]) \<and>
         (\<not> isWav audio \<and> \<not> canConvert m \<longrightarrow>
            transcribe now network parse audio topts m = (Inl UnsupportedFormat, m))"
proof (intro conjI impI)
  show "isWav audio \<longleftrightarrow>
            12 \<le> length audio \<and> take 4 audio = bytes_of ''RIFF'' \<and>
            take 4 (drop 8 audio) = bytes_of ''WAVE''"
    by (rule isWav_signature)
next
  assume w: "isWav audio"
  from assms have r: "ready (m\<lparr>canConvert := c\<rparr>)" "process (m\<lparr>canConvert := c\<rparr>) \<noteq> None"
    by simp_all
  from w have "isWav audio \<or> canConvert (m\<lparr>canConvert := c\<rparr>)" by simp
  from transcribe_sends [OF r this]
  show "transcribe now network parse audio topts (m\<lparr>canConvert := c\<rparr>) =
              (transcribe_settle parse (network (inference_request now audio topts m)),
               emit [HttpSend (inference_request now audio topts m)] (m\<lparr>canConvert := c\<rparr>))"
    by (simp only: inference_request_canConvert)
  show "req_body (inference_request now audio topts m) = concat (multipart_parts now audio topts)"
    by (simp add: inference_request_def Let_def)
  from w show "take 2 (multipart_parts now audio topts) =
              [bytes_of (''--'' @ boundary_of now @ CRLF @
                 ''Content-Disposition: form-data; name='' @ [dquote] @ ''file'' @ [dquote] @
                 ''; filename='' @ [dquote] @ ''audio.wav'' @ [dquote] @ CRLF @
                 ''Content-Type: audio/wav'' @ CRLF @ CRLF),
               audio]"
    by (simp add: multipart_parts_def file_part_def Let_def numeral_2_eq_2)
next
  assume "\<not> isWav audio \<and> \<not> canConvert m"
  with assms show "transcribe now network parse audio topts m = (Inl UnsupportedFormat, m)"
    by (simp add: transcribe_unsupported)
qed

lemma ready_manager_running:
  "ready ready_manager" "process ready_manager \<noteq> None" "\<not> canConvert ready_manager"
  by (simp_all add: ready_manager_def)

theorem transcribe_format_sniffing_witness:
  "fst (transcribe 0 ok_network raw_parse wav_header plain_opts ready_manager) = Inr ''{}'' \<and>
   effects (snd (transcribe 0 ok_network raw_parse wav_header plain_opts ready_manager)) =
     effects ready_manager @ [HttpSend (inference_request 0 wav_header plain_opts ready_manager)] \<and>
   transcribe 0 ok_network raw_parse webm_header plain_opts ready_manager =
     (Inl UnsupportedFormat, ready_manager)"
proof -
  have c: "ready_manager\<lparr>canConvert := False\<rparr> = ready_manager"
    by (simp add: ready_manager_def)
  note t = transcribe_format_sniffing [OF ready_manager_running(1,2)]
  from t [of wav_header 0 ok_network raw_parse plain_opts False] isWav_wav_header
  have a: "transcribe 0 ok_network raw_parse wav_header plain_opts ready_manager =
          (transcribe_settle raw_parse (ok_network (inference_request 0 wav_header plain_opts ready_manager)),
           emit [HttpSend (inference_request 0 wav_header plain_opts ready_manager)] ready_manager)"
    by (simp only: c)
  from t [of webm_header 0 ok_network raw_parse plain_opts False] not_isWav_webm_header
    ready_manager_running(3)
  have b: "transcribe 0 ok_network raw_parse webm_header plain_opts ready_manager =
     (Inl UnsupportedFormat, ready_manager)"
    by blast
  from a b show ?thesis
    by (simp add: transcribe_settle_def ok_network_def raw_parse_def emit_def)
qed

text \<open>
  Claim C4, as the code has it. \<open>transcribe\<close> passes its first check exactly when
  \<open>ready\<close> is true and a process is owned, and then goes on to the format check and
  the request. In every other state it fails with \<open>ServerNotRunning\<close> and nothing is
  sent. A state with a process owned whose last health probe failed (\<open>ready\<close> false,
  the specification's Degraded) is among the states that are refused.
\<close>

theorem transcribe_requires_ready:
  "(ready m \<and> process m \<noteq> None \<longrightarrow>
      transcribe_prepare now audio topts m \<noteq> Inl ServerNotRunning \<and>
      (isWav audio \<or> canConvert m \<longrightarrow>
         transcribe now network parse audio topts m =
           (transcribe_settle parse (network (inference_request now audio topts m)),
            emit [HttpSend (inference_request now audio topts m)] m))) \<and>
   (\<not> (ready m \<and> process m \<noteq> None) \<longrightarrow>
      transcribe now network parse audio topts m = (Inl ServerNotRunning, m))"
  using transcribe_not_running [of m now network parse audio topts]
    transcribe_sends [of m audio now network parse topts]
  by (auto simp: transcribe_prepare_def)

theorem transcribe_requires_ready_witness:
  "transcribe 0 ok_network raw_parse wav_header plain_opts ready_manager =
     (Inr ''{}'', emit [HttpSend (inference_request 0 wav_header plain_opts ready_manager)] ready_manager) \<and>
   transcribe 0 ok_network raw_parse wav_header plain_opts new_manager = (Inl ServerNotRunning, new_manager)"
proof -
  have n: "\<not> (ready new_manager \<and> process new_manager \<noteq> None)"
    by (simp add: new_manager_def)
  from transcribe_requires_ready [of ready_manager 0 wav_header plain_opts ok_network raw_parse]
    ready_manager_running isWav_wav_header
  have a: "transcribe 0 ok_network raw_parse wav_header plain_opts ready_manager =
           (transcribe_settle raw_parse (ok_network (inference_request 0 wav_header plain_opts ready_manager)),
            emit [HttpSend (inference_request 0 wav_header plain_opts ready_manager)] ready_manager)"
    by blast
  from transcribe_requires_ready [of new_manager 0 wav_header plain_opts ok_network raw_parse] n
  have b: "transcribe 0 ok_network raw_parse wav_header plain_opts new_manager = (Inl ServerNotRunning, new_manager)"
    by blast
  from a b show ?thesis
    by (simp add: transcribe_settle_def ok_network_def raw_parse_def)
qed

theorem transcribe_degraded_counterexample:
  "process (healthTick False ready_manager) \<noteq> None \<and>
   \<not> ready (healthTick False ready_manager) \<and>
   transcribe 0 ok_network raw_parse wav_header plain_opts (healthTick False ready_manager) =
     (Inl ServerNotRunning, healthTick False ready_manager)"
proof -
  have h: "process (healthTick False ready_manager) \<noteq> None" "\<not> ready (healthTick False ready_manager)"
    by (simp_all add: healthTick_def healthTick_begin_def healthTick_end_def checkHealth_send_def
        emit_def ready_manager_def)
  with transcribe_not_running [of "healthTick False ready_manager"] show ?thesis
    by simp
qed

subsection \<open>Stop\<close>

lemma getServerBinaryPath_frame [simp]:
  "process (snd (getServerBinaryPath h u m)) = process m"
  "port (snd (getServerBinaryPath h u m)) = port m"
  "ready (snd (getServerBinaryPath h u m)) = ready m"
  "modelPath (snd (getServerBinaryPath h u m)) = modelPath m"
  "startupPromise (snd (getServerBinaryPath h u m)) = startupPromise m"
  "healthCheckInterval (snd (getServerBinaryPath h u m)) = healthCheckInterval m"
  "cachedFFmpegPath (snd (getServerBinaryPath h u m)) = cachedFFmpegPath m"
  "canConvert (snd (getServerBinaryPath h u m)) = canConvert m"
  "usingCuda (snd (getServerBinaryPath h u m)) = usingCuda m"
  "cudaAvailable (snd (getServerBinaryPath h u m)) = cudaAvailable m"
  "effects (snd (getServerBinaryPath h u m)) = effects m"
  by (simp_all add: getServerBinaryPath_def Let_def split: option.splits)

lemma isAvailable_frame [simp]:
  "process (snd (isAvailable h m)) = process m"
  "port (snd (isAvailable h m)) = port m"
  "ready (snd (isAvailable h m)) = ready m"
  "modelPath (snd (isAvailable h m)) = modelPath m"
  "usingCuda (snd (isAvailable h m)) = usingCuda m"
  by (simp_all add: isAvailable_def split_beta)

lemma getStatus_fields:
  "st_running (fst (getStatus h m)) = (ready m \<and> process m \<noteq> None)"
  "st_port (fst (getStatus h m)) = port m"
  "st_modelPath (fst (getStatus h m)) = modelPath m"
  "st_usingCuda (fst (getStatus h m)) = usingCuda m"
  "st_modelName (fst (getStatus h m)) =
     (if truthy (modelPath m)
      then Some (replace_first ''ggml-'' [] (path_basename h (or_empty (modelPath m)) ''.bin''))
      else None)"
  by (simp_all add: getStatus_def split_beta)

lemma stop_reset_fields [simp]:
  "process (stop_reset m) = None" "port (stop_reset m) = None" "modelPath (stop_reset m) = None"
  "ready (stop_reset m) = False" "healthCheckInterval (stop_reset m) = healthCheckInterval m"
  "effects (stop_reset m) = effects m" "startupPromise (stop_reset m) = startupPromise m"
  "usingCuda (stop_reset m) = usingCuda m" "canConvert (stop_reset m) = canConvert m"
  by (simp_all add: stop_reset_def)

lemma stopHealthCheck_fields [simp]:
  "process (stopHealthCheck m) = process m" "port (stopHealthCheck m) = port m"
  "modelPath (stopHealthCheck m) = modelPath m" "ready (stopHealthCheck m) = ready m"
  "healthCheckInterval (stopHealthCheck m) = False"
  "startupPromise (stopHealthCheck m) = startupPromise m"
  "usingCuda (stopHealthCheck m) = usingCuda m" "canConvert (stopHealthCheck m) = canConvert m"
  by (simp_all add: stopHealthCheck_def emit_def)

lemma emit_fields [simp]:
  "process (emit es m) = process m" "port (emit es m) = port m"
  "modelPath (emit es m) = modelPath m" "ready (emit es m) = ready m"
  "healthCheckInterval (emit es m) = healthCheckInterval m"
  "startupPromise (emit es m) = startupPromise m"
  "usingCuda (emit es m) = usingCuda m" "canConvert (emit es m) = canConvert m"
  "effects (emit es m) = effects m @ es"
  by (simp_all add: emit_def)

lemma on_close_fields [simp]:
  "process (on_close m) = None" "port (on_close m) = port m"
  "modelPath (on_close m) = modelPath m" "ready (on_close m) = False"
  "healthCheckInterval (on_close m) = False"
  "startupPromise (on_close m) = startupPromise m"
  "usingCuda (on_close m) = usingCuda m" "canConvert (on_close m) = canConvert m"
  by (simp_all add: on_close_def)

lemma stop_owned:
  assumes "process m \<noteq> None" and "stop a m = StopDone m'"
  shows "process m' = None \<and> port m' = None \<and> modelPath m' = None \<and> \<not> ready m' \<and>
         \<not> healthCheckInterval m'"
  using assms
  by (auto simp: stop_def stop_begin_def stop_timer_def killProcess_def Let_def
      split: option.splits if_splits prod.splits bool.splits)

lemma stop_not_owned:
  assumes "process m = None"
  shows "stop a m = StopDone ((stopHealthCheck m)\<lparr>ready := False\<rparr>)"
  using assms by (simp add: stop_def stop_begin_def Let_def)

lemma stop_hangs_iff:
  "(\<exists>m'. stop a m = StopHangs m') \<longleftrightarrow>
     process m \<noteq> None \<and> \<not> term_throws a \<and> \<not> closes_in_grace a \<and> kill_throws a \<and> \<not> closes_later a"
  by (auto simp: stop_def stop_begin_def stop_timer_def killProcess_def Let_def
      split: option.splits if_splits prod.splits bool.splits)

lemma stop_never_rejects:
  "stop a m \<noteq> StopRejected e m'"
  by (auto simp: stop_def stop_begin_def stop_timer_def killProcess_def Let_def
      split: option.splits if_splits prod.splits bool.splits)

text \<open>What a completed \<open>stop\<close> leaves, whatever the answers were.\<close>

lemma stop_done_resets:
  assumes "stop a m = StopDone m'"
  shows "process m' = None \<and> \<not> ready m' \<and> \<not> healthCheckInterval m' \<and>
         \<not> st_running (fst (getStatus h m')) \<and>
         (process m \<noteq> None \<longrightarrow>
            port m' = None \<and> modelPath m' = None \<and>
            st_port (fst (getStatus h m')) = None \<and>
            st_modelPath (fst (getStatus h m')) = None \<and>
            st_modelName (fst (getStatus h m')) = None)"
proof (cases "process m = None")
  case True
  with assms have "m' = (stopHealthCheck m)\<lparr>ready := False\<rparr>"
    by (simp add: stop_not_owned)
  with True show ?thesis
    by (simp add: getStatus_fields)
next
  case False
  from stop_owned [OF False assms] False show ?thesis
    by (simp add: getStatus_fields truthy_def)
qed

text \<open>Unless the \<open>killProcess\<close> of line 600 is reached and throws, \<open>stop\<close> completes,
  and no error escapes: the one thrown at line 595 is logged at line 616.\<close>

lemma stop_completes:
  assumes "kill_throws a \<longrightarrow> process m = None \<or> term_throws a \<or> closes_in_grace a"
  shows "\<exists>m'. stop a m = StopDone m'"
proof (cases "stop a m")
  case (StopDone m')
  then show ?thesis by simp
next
  case (StopRejected e m')
  with stop_never_rejects [of a m e m'] show ?thesis by simp
next
  case (StopHangs m')
  then have "\<exists>m'. stop a m = StopHangs m'" by blast
  with assms show ?thesis by (auto simp: stop_hangs_iff)
qed

lemma stop_uncaught:
  assumes "kill_throws a \<longrightarrow> process m = None \<or> term_throws a \<or> closes_in_grace a"
    and "stop a m = StopDone m'"
  shows "filter is_uncaught (effects m') = filter is_uncaught (effects m)"
  using assms
  by (auto simp: stop_def stop_begin_def stop_timer_def killProcess_def Let_def stopHealthCheck_def
      stop_reset_def on_close_def emit_def
      split: option.splits if_splits prod.splits bool.splits)

lemma stop_logs_term_error:
  assumes "process m \<noteq> None" and "term_throws a" and "stop a m = StopDone m'"
  shows "effects m' = effects (stopHealthCheck m) @ [Kill (child_id (the (process m))) SIGTERM, StopErrorLogged (KillFailed SIGTERM)]"
  using assms
  by (auto simp: stop_def stop_begin_def  killProcess_def Let_def stopHealthCheck_def
      stop_reset_def emit_def
      split: option.splits if_splits prod.splits bool.splits)

lemma stop_not_owned_keeps:
  assumes "process m = None" and "stop a m = StopDone m'"
  shows "port m' = port m \<and> modelPath m' = modelPath m"
  using assms by (auto simp: stop_not_owned)

text \<open>
  The call of line 600 is outside the \<open>try\<close> of line 594. When it throws, the error
  leaves the timer callback uncaught and \<open>resolve()\<close> is not reached: unless the child
  closes afterwards, \<open>stop\<close> never completes and the manager still holds the child,
  its port and its model path.
\<close>

lemma stop_forced_kill_throws:
  assumes "process m = Some c" and "\<not> term_throws a" and "\<not> closes_in_grace a" and "kill_throws a"
    and "\<not> closes_later a"
  shows "\<exists>m'. stop a m = StopHangs m' \<and> process m' = Some c \<and> port m' = port m \<and>
           modelPath m' = modelPath m \<and>
           effects m' = effects (stopHealthCheck m) @
             [Kill (child_id c) SIGTERM, Kill (child_id c) SIGKILL, UncaughtException (KillFailed SIGKILL)]"
  using assms
  by (auto simp: stop_def stop_begin_def stop_timer_def killProcess_def Let_def stopHealthCheck_def
      stop_reset_def emit_def
      split: option.splits if_splits prod.splits bool.splits)

text \<open>
  Claim C2, as the code has it. Take any state and any answers to one call of \<open>stop\<close>
  in which the forced kill of line 600 is not reached or does not throw: no process
  owned, or the graceful signal throwing, or the child closing within the grace period,
  or the forced kill delivered. Then \<open>stop\<close> completes; it is never rejected, and it
  leaves no uncaught error behind. On completion no process is owned, \<open>ready\<close> is
  false, health polling is off and \<open>getStatus\<close> reports not running. When a process was
  owned at the call, \<open>port\<close> and \<open>modelPath\<close> are reset as well, and \<open>getStatus\<close>
  reports a null port, model path and model name; when the graceful signal threw, the
  error was logged after the signal and nothing else was done. When no process was
  owned at the call, \<open>port\<close> and \<open>modelPath\<close> are left as they were.
\<close>

theorem stop_leaves_stopped:
  assumes "kill_throws a \<longrightarrow> process m = None \<or> term_throws a \<or> closes_in_grace a"
  shows "\<exists>m'. stop a m = StopDone m' \<and>
           process m' = None \<and> \<not> ready m' \<and> \<not> healthCheckInterval m' \<and>
           \<not> st_running (fst (getStatus h m')) \<and>
           filter is_uncaught (effects m') = filter is_uncaught (effects m) \<and>
           (process m \<noteq> None \<longrightarrow>
              port m' = None \<and> modelPath m' = None \<and>
              st_port (fst (getStatus h m')) = None \<and>
              st_modelPath (fst (getStatus h m')) = None \<and>
              st_modelName (fst (getStatus h m')) = None) \<and>
           (process m \<noteq> None \<and> term_throws a \<longrightarrow>
              effects m' = effects (stopHealthCheck m) @
                [Kill (child_id (the (process m))) SIGTERM, StopErrorLogged (KillFailed SIGTERM)]) \<and>
           (process m = None \<longrightarrow> port m' = port m \<and> modelPath m' = modelPath m)"
proof -
  from stop_completes [OF assms] obtain m' where d: "stop a m = StopDone m'" ..
  from stop_done_resets [OF d, of h] stop_uncaught [OF assms d]
    stop_logs_term_error [of m a m'] stop_not_owned_keeps [of m a m'] d
  show ?thesis by simp
qed

theorem stop_leaves_stopped_witness:
  "stop graceful_stop ready_manager =
     StopDone (stop_reset (on_close (emit [Kill 0 SIGTERM] (stopHealthCheck ready_manager)))) \<and>
   port (stop_reset (on_close (emit [Kill 0 SIGTERM] (stopHealthCheck ready_manager)))) = None \<and>
   st_port (fst (getStatus linux_host
     (stop_reset (on_close (emit [Kill 0 SIGTERM] (stopHealthCheck ready_manager)))))) = None \<and>
   \<not> st_running (fst (getStatus linux_host
     (stop_reset (on_close (emit [Kill 0 SIGTERM] (stopHealthCheck ready_manager)))))) \<and>
   filter is_uncaught (effects
     (stop_reset (on_close (emit [Kill 0 SIGTERM] (stopHealthCheck ready_manager))))) = [] \<and>
   stop \<lparr>term_throws = True, closes_in_grace = False, kill_throws = True, closes_later = False\<rparr>
       ready_manager =
     StopDone (stop_reset (emit [StopErrorLogged (KillFailed SIGTERM)]
       (emit [Kill 0 SIGTERM] (stopHealthCheck ready_manager)))) \<and>
   modelPath (stop_reset (emit [StopErrorLogged (KillFailed SIGTERM)]
       (emit [Kill 0 SIGTERM] (stopHealthCheck ready_manager)))) = None \<and>
   effects (stop_reset (emit [StopErrorLogged (KillFailed SIGTERM)]
       (emit [Kill 0 SIGTERM] (stopHealthCheck ready_manager)))) =
     effects ready_manager @ [ClearInterval, Kill 0 SIGTERM, StopErrorLogged (KillFailed SIGTERM)]"
proof -
  let ?a = "\<lparr>term_throws = True, closes_in_grace = False, kill_throws = True, closes_later = False\<rparr>"
  have run: "stop graceful_stop ready_manager =
     StopDone (stop_reset (on_close (emit [Kill 0 SIGTERM] (stopHealthCheck ready_manager))))"
    by (simp add: stop_def stop_begin_def graceful_stop_def Let_def ready_manager_def stopHealthCheck_def)
  have run': "stop ?a ready_manager =
     StopDone (stop_reset (emit [StopErrorLogged (KillFailed SIGTERM)]
       (emit [Kill 0 SIGTERM] (stopHealthCheck ready_manager))))"
    by (simp add: stop_def stop_begin_def Let_def ready_manager_def stopHealthCheck_def)
  have owned: "process ready_manager \<noteq> None" "the (process ready_manager) = \<lparr>child_id = 0, killed = False\<rparr>"
    by (simp_all add: ready_manager_def)
  have quiet: "filter is_uncaught (effects ready_manager) = []"
    by (simp add: ready_manager_def)
  have polling: "effects (stopHealthCheck ready_manager) = effects ready_manager @ [ClearInterval]"
    by (simp add: stopHealthCheck_def ready_manager_def emit_def)
  have hyp: "kill_throws graceful_stop \<longrightarrow>
      process ready_manager = None \<or> term_throws graceful_stop \<or> closes_in_grace graceful_stop"
    by (simp add: graceful_stop_def)
  have hyp': "kill_throws ?a \<longrightarrow> process ready_manager = None \<or> term_throws ?a \<or> closes_in_grace ?a"
    by simp
  from stop_leaves_stopped [OF hyp, of linux_host] owned run quiet
  have one: "port (stop_reset (on_close (emit [Kill 0 SIGTERM] (stopHealthCheck ready_manager)))) = None \<and>
   st_port (fst (getStatus linux_host
     (stop_reset (on_close (emit [Kill 0 SIGTERM] (stopHealthCheck ready_manager)))))) = None \<and>
   \<not> st_running (fst (getStatus linux_host
     (stop_reset (on_close (emit [Kill 0 SIGTERM] (stopHealthCheck ready_manager)))))) \<and>
   filter is_uncaught (effects
     (stop_reset (on_close (emit [Kill 0 SIGTERM] (stopHealthCheck ready_manager))))) = []"
    by simp
  from stop_leaves_stopped [OF hyp', of linux_host] owned run' polling
  have two: "modelPath (stop_reset (emit [StopErrorLogged (KillFailed SIGTERM)]
       (emit [Kill 0 SIGTERM] (stopHealthCheck ready_manager)))) = None \<and>
   effects (stop_reset (emit [StopErrorLogged (KillFailed SIGTERM)]
       (emit [Kill 0 SIGTERM] (stopHealthCheck ready_manager)))) =
     effects ready_manager @ [ClearInterval, Kill 0 SIGTERM, StopErrorLogged (KillFailed SIGTERM)]"
    by simp
  from run run' one two show ?thesis by simp
qed

theorem stop_after_exit_counterexample:
  "stop graceful_stop (on_close ready_manager) = StopDone (on_close ready_manager) \<and>
   port (on_close ready_manager) = Some 8178 \<and>
   modelPath (on_close ready_manager) = Some base_model \<and>
   st_port (fst (getStatus linux_host (on_close ready_manager))) = Some 8178 \<and>
   st_modelPath (fst (getStatus linux_host (on_close ready_manager))) = Some base_model"
proof -
  have "stop graceful_stop (on_close ready_manager) =
        StopDone ((stopHealthCheck (on_close ready_manager))\<lparr>ready := False\<rparr>)"
    by (rule stop_not_owned) simp
  moreover have "(stopHealthCheck (on_close ready_manager))\<lparr>ready := False\<rparr> = on_close ready_manager"
    by (simp add: on_close_def stopHealthCheck_def emit_def ready_manager_def)
  moreover have "port ready_manager = Some 8178" "modelPath ready_manager = Some base_model"
    by (simp_all add: ready_manager_def)
  ultimately show ?thesis
    by (simp add: getStatus_fields)
qed

subsection \<open>Start: frames of the steps and the readiness loop\<close>

lemma bundledFFmpeg_frame [simp]:
  "process (snd (bundledFFmpeg h m)) = process m"
  "port (snd (bundledFFmpeg h m)) = port m"
  "ready (snd (bundledFFmpeg h m)) = ready m"
  "modelPath (snd (bundledFFmpeg h m)) = modelPath m"
  "startupPromise (snd (bundledFFmpeg h m)) = startupPromise m"
  "healthCheckInterval (snd (bundledFFmpeg h m)) = healthCheckInterval m"
  "usingCuda (snd (bundledFFmpeg h m)) = usingCuda m"
  "filter is_spawn (effects (snd (bundledFFmpeg h m))) = filter is_spawn (effects m)"
  by (simp_all add: bundledFFmpeg_def Let_def emit_def split: option.splits)

lemma getFFmpegPath_frame [simp]:
  "process (snd (getFFmpegPath h m)) = process m"
  "port (snd (getFFmpegPath h m)) = port m"
  "ready (snd (getFFmpegPath h m)) = ready m"
  "modelPath (snd (getFFmpegPath h m)) = modelPath m"
  "startupPromise (snd (getFFmpegPath h m)) = startupPromise m"
  "healthCheckInterval (snd (getFFmpegPath h m)) = healthCheckInterval m"
  "usingCuda (snd (getFFmpegPath h m)) = usingCuda m"
  "filter is_spawn (effects (snd (getFFmpegPath h m))) = filter is_spawn (effects m)"
proof -
  obtain r m1 where b: "bundledFFmpeg h m = (r, m1)" by (cases "bundledFFmpeg h m")
  have m1: "m1 = snd (bundledFFmpeg h m)" using b by simp
  have f: "process m1 = process m" "port m1 = port m" "ready m1 = ready m" "modelPath m1 = modelPath m"
    "startupPromise m1 = startupPromise m" "healthCheckInterval m1 = healthCheckInterval m"
    "usingCuda m1 = usingCuda m" "filter is_spawn (effects m1) = filter is_spawn (effects m)"
    unfolding m1 by simp_all
  show "process (snd (getFFmpegPath h m)) = process m"
    "port (snd (getFFmpegPath h m)) = port m"
    "ready (snd (getFFmpegPath h m)) = ready m"
    "modelPath (snd (getFFmpegPath h m)) = modelPath m"
    "startupPromise (snd (getFFmpegPath h m)) = startupPromise m"
    "healthCheckInterval (snd (getFFmpegPath h m)) = healthCheckInterval m"
    "usingCuda (snd (getFFmpegPath h m)) = usingCuda m"
    "filter is_spawn (effects (snd (getFFmpegPath h m))) = filter is_spawn (effects m)"
    using f by (simp_all add: getFFmpegPath_def b split: option.splits)
qed

lemma spawn_count_getFFmpegPath [simp]:
  "spawn_count (snd (getFFmpegPath h m)) = spawn_count m"
  by (simp add: spawn_count_def)

lemma doStart_spawn_fields:
  "process (doStart_spawn h mp opts bin p m) = Some \<lparr>child_id = spawn_count m, killed = False\<rparr>"
  "port (doStart_spawn h mp opts bin p m) = Some p"
  "modelPath (doStart_spawn h mp opts bin p m) = Some mp"
  "ready (doStart_spawn h mp opts bin p m) = ready m"
  "startupPromise (doStart_spawn h mp opts bin p m) = startupPromise m"
  "healthCheckInterval (doStart_spawn h mp opts bin p m) = healthCheckInterval m"
  "usingCuda (doStart_spawn h mp opts bin p m) = usingCuda m"
  "canConvert (doStart_spawn h mp opts bin p m) = truthy (fst (getFFmpegPath h (m\<lparr>port := Some p, modelPath := Some mp\<rparr>)))"
  by (simp_all add: doStart_spawn_def Let_def split_beta spawn_count_def)

lemma doStart_spawn_spawns:
  "\<exists>args cwd path.
     filter is_spawn (effects (doStart_spawn h mp opts bin p m)) =
       filter is_spawn (effects m) @ [Spawn (spawn_count m) bin args cwd path]"
  by (simp add: doStart_spawn_def Let_def split_beta spawn_count_def emit_def)

lemma child_handler_no_close:
  "\<not> is_close e \<Longrightarrow> child_handler e (i, m) = (i', m') \<Longrightarrow>
   process m' = process m \<and> port m' = port m \<and> modelPath m' = modelPath m \<and>
   (ready m' \<longrightarrow> ready m) \<and> startupPromise m' = startupPromise m \<and>
   healthCheckInterval m' = healthCheckInterval m \<and> usingCuda m' = usingCuda m \<and>
   canConvert m' = canConvert m \<and> effects m' = effects m"
  by (cases e) (auto simp: on_error_def)

lemma deliver_no_close:
  "no_close evs \<Longrightarrow> deliver evs (i, m) = (i', m') \<Longrightarrow>
   process m' = process m \<and> port m' = port m \<and> modelPath m' = modelPath m \<and>
   (ready m' \<longrightarrow> ready m) \<and> startupPromise m' = startupPromise m \<and>
   healthCheckInterval m' = healthCheckInterval m \<and> usingCuda m' = usingCuda m \<and>
   canConvert m' = canConvert m \<and> effects m' = effects m"
proof (induction evs arbitrary: i m)
  case Nil
  then show ?case by (simp add: deliver_def)
next
  case (Cons e evs)
  obtain i1 m1 where s: "child_handler e (i, m) = (i1, m1)"
    by (cases "child_handler e (i, m)")
  from Cons.prems(1) have e: "\<not> is_close e" and evs: "no_close evs"
    by (auto simp: no_close_def split: if_splits)
  from Cons.prems(2) s have "deliver evs (i1, m1) = (i', m')"
    by (simp add: deliver_def)
  from Cons.IH [OF evs this] child_handler_no_close [OF e s]
  show ?case by simp
qed

lemma same_owner_refl [simp]: "same_owner m m"
  by (simp add: same_owner_def)

lemma same_owner_trans: "same_owner m m1 \<Longrightarrow> same_owner m1 m2 \<Longrightarrow> same_owner m m2"
  by (simp add: same_owner_def)

lemma probe_round_same_owner:
  assumes "no_close evs" and "deliver evs (i, checkHealth_send m) = (i1, m1)"
  shows "same_owner m m1 \<and> (ready m1 \<longrightarrow> ready m)"
  using deliver_no_close [OF assms]
  by (simp add: same_owner_def checkHealth_send_def)

lemma pause_same_owner:
  assumes "no_close evs" and "deliver evs (i, m) = (i1, m1)"
  shows "same_owner m m1 \<and> (ready m1 \<longrightarrow> ready m)"
  using deliver_no_close [OF assms]
  by (simp add: same_owner_def)


lemma elapsed_before_shift:
  "elapsed_before (\<lambda>j. rounds (k + j)) (Suc n) =
   round_ms (rounds k) + elapsed_before (\<lambda>j. rounds (Suc k + j)) n"
  by (induction n) simp_all

lemma waitForReady_loop_succeeds:
  "\<forall>j<n. \<not> probe_ok (rounds (k + j)) \<and> no_close (probe_events (rounds (k + j))) \<and>
          no_close (pause_events (rounds (k + j))) \<Longrightarrow>
   probe_ok (rounds (k + n)) \<Longrightarrow> no_close (probe_events (rounds (k + n))) \<Longrightarrow>
   elapsed + elapsed_before (\<lambda>j. rounds (k + j)) n < STARTUP_TIMEOUT_MS \<Longrightarrow>
   process m = Some c \<Longrightarrow> \<not> killed c \<Longrightarrow>
   \<exists>m'. waitForReady_loop rounds k elapsed i m = (Inr (), m') \<and> same_owner m m' \<and> ready m'"
proof (induction n arbitrary: k elapsed i m)
  case 0
  then have head: "waitForReady_head elapsed i m = None"
    by (simp add: waitForReady_head_def)
  obtain i1 m1 where p: "deliver (probe_events (rounds k)) (i, checkHealth_send m) = (i1, m1)"
    by (cases "deliver (probe_events (rounds k)) (i, checkHealth_send m)")
  from "0.prems"(3) have nc: "no_close (probe_events (rounds k))" by simp
  from probe_round_same_owner [OF nc p] have o: "same_owner m m1" by simp
  from "0.prems"(2) have ok: "probe_ok (rounds k)" by simp
  have "waitForReady_loop rounds k elapsed i m = (Inr (), m1\<lparr>ready := True\<rparr>)"
    using head p ok by simp
  moreover from o have "same_owner m (m1\<lparr>ready := True\<rparr>)"
    by (simp add: same_owner_def)
  ultimately show ?case by simp
next
  case (Suc n)
  from Suc.prems(4) have t: "elapsed + round_ms (rounds k) + elapsed_before (\<lambda>j. rounds (Suc k + j)) n
      < STARTUP_TIMEOUT_MS"
    by (simp add: elapsed_before_shift del: elapsed_before.simps)
  then have "elapsed < STARTUP_TIMEOUT_MS" by simp
  with Suc.prems have head: "waitForReady_head elapsed i m = None"
    by (simp add: waitForReady_head_def)
  obtain i1 m1 where p: "deliver (probe_events (rounds k)) (i, checkHealth_send m) = (i1, m1)"
    by (cases "deliver (probe_events (rounds k)) (i, checkHealth_send m)")
  obtain i2 m2 where q: "deliver (pause_events (rounds k)) (i1, m1) = (i2, m2)"
    by (cases "deliver (pause_events (rounds k)) (i1, m1)")
  from Suc.prems(1) have r0: "\<not> probe_ok (rounds k)" "no_close (probe_events (rounds k))"
    "no_close (pause_events (rounds k))"
    by (auto dest: spec [of _ 0])
  from probe_round_same_owner [OF r0(2) p] pause_same_owner [OF r0(3) q]
  have o: "same_owner m m2"
    by (auto intro: same_owner_trans)
  with Suc.prems have pr: "process m2 = Some c"
    by (simp add: same_owner_def)
  have rest: "\<forall>j<n. \<not> probe_ok (rounds (Suc k + j)) \<and> no_close (probe_events (rounds (Suc k + j))) \<and>
          no_close (pause_events (rounds (Suc k + j)))"
  proof (intro allI impI)
    fix j assume "j < n"
    then have "Suc j < Suc n" by simp
    with Suc.prems(1) have "\<not> probe_ok (rounds (k + Suc j)) \<and> no_close (probe_events (rounds (k + Suc j))) \<and>
          no_close (pause_events (rounds (k + Suc j)))"
      by blast
    then show "\<not> probe_ok (rounds (Suc k + j)) \<and> no_close (probe_events (rounds (Suc k + j))) \<and>
          no_close (pause_events (rounds (Suc k + j)))"
      by simp
  qed
  from Suc.prems(2,3) have last: "probe_ok (rounds (Suc k + n))" "no_close (probe_events (rounds (Suc k + n)))"
    by simp_all
  from Suc.IH [OF rest last t pr Suc.prems(6), of i2]
  obtain m' where r: "waitForReady_loop rounds (Suc k) (elapsed + round_ms (rounds k)) i2 m2 = (Inr (), m')"
    "same_owner m2 m'" "ready m'"
    by blast
  have "waitForReady_loop rounds k elapsed i m = (Inr (), m')"
    using head p q r0(1) r(1) by (simp add: round_ms_def add.assoc)
  with r(2,3) o show ?case
    by (auto intro: same_owner_trans)
qed

lemma start_enters_doStart:
  assumes "start_decide mp opts m = Proceed \<and> m0 = m \<or>
           start_decide mp opts m = StopFirst \<and> stop (stop_ans a) m = StopDone m0"
  shows "start h a mp opts m =
           (Settled (fst (doStart h a mp opts m0)), (snd (doStart h a mp opts m0))\<lparr>startupPromise := None\<rparr>)"
  using assms by (auto simp: start_def split_beta)

lemma doStart_reaches_wait:
  assumes "doStart_resolve h mp opts m0 = (Inr bin, m1)"
      and "findAvailablePort (port_free a) m1 = (Inr p, m2)"
  shows "doStart h a mp opts m0 =
           (case waitForReady (startup_rounds a) (doStart_spawn h mp opts bin p m2) of
              (Inl e, m3) \<Rightarrow> (Inl e, m3)
            | (Inr u, m3) \<Rightarrow> (Inr (), startHealthCheck m3))"
  using assms by (simp add: doStart_def)

lemma cached_server_after_cuda_lookup [simp]:
  "cachedServerBinaryPath (snd (getServerBinaryPath h True m)) = cachedServerBinaryPath m"
  by (simp add: getServerBinaryPath_def Let_def split: option.splits)

lemma cpu_lookup_depends_on_cache:
  "cachedServerBinaryPath m' = cachedServerBinaryPath m \<Longrightarrow>
   fst (getServerBinaryPath h False m') = fst (getServerBinaryPath h False m)"
  by (simp add: getServerBinaryPath_def Let_def split: option.splits)

lemma doStart_resolve_frame:
  assumes "doStart_resolve h mp opts m = (r, m1)"
  shows "process m1 = process m \<and> port m1 = port m \<and> ready m1 = ready m \<and>
         modelPath m1 = modelPath m \<and> startupPromise m1 = startupPromise m \<and>
         healthCheckInterval m1 = healthCheckInterval m \<and> effects m1 = effects m"
proof -
  have a: "process (snd (getServerBinaryPath h u (snd (getServerBinaryPath h v m)))) = process m"
    "port (snd (getServerBinaryPath h u (snd (getServerBinaryPath h v m)))) = port m"
    "ready (snd (getServerBinaryPath h u (snd (getServerBinaryPath h v m)))) = ready m"
    "modelPath (snd (getServerBinaryPath h u (snd (getServerBinaryPath h v m)))) = modelPath m"
    "startupPromise (snd (getServerBinaryPath h u (snd (getServerBinaryPath h v m)))) = startupPromise m"
    "healthCheckInterval (snd (getServerBinaryPath h u (snd (getServerBinaryPath h v m)))) = healthCheckInterval m"
    "effects (snd (getServerBinaryPath h u (snd (getServerBinaryPath h v m)))) = effects m" for u v
    by simp_all
  from assms show ?thesis
    by (auto simp: doStart_resolve_def split_beta Let_def a split: if_splits)
qed

lemma doStart_resolve_fallback:
  assumes "useCuda_of opts"
      and "\<not> truthy (fst (getServerBinaryPath h True m))"
      and "fst (getServerBinaryPath h False m) = Some bin" and "bin \<noteq> []"
      and "existsSync h mp"
  shows "\<exists>m1. doStart_resolve h mp opts m = (Inr bin, m1) \<and> \<not> usingCuda m1"
proof -
  let ?m' = "snd (getServerBinaryPath h True m)"
  have "fst (getServerBinaryPath h False ?m') = Some bin"
    using assms(3) cpu_lookup_depends_on_cache [of ?m' m h] by simp
  with assms show ?thesis
    by (simp add: doStart_resolve_def split_beta truthy_def or_empty_def)
qed

lemma probe_trace_no_spawn [simp]: "filter is_spawn (probe_trace bindable ps) = []"
  by (induction ps) (simp_all add: LOOPBACK_def)

lemma findAvailablePort_finds:
  assumes "8178 \<le> q" and "q \<le> 8199" and "bindable q"
  shows "\<exists>p m'. findAvailablePort bindable m = (Inr p, m') \<and> process m' = process m \<and>
           ready m' = ready m \<and> startupPromise m' = startupPromise m \<and>
           healthCheckInterval m' = healthCheckInterval m \<and> usingCuda m' = usingCuda m \<and>
           filter is_spawn (effects m') = filter is_spawn (effects m)"
proof -
  have le: "PORT_RANGE_START \<le> Suc PORT_RANGE_END"
    by (simp add: PORT_RANGE_START_def PORT_RANGE_END_def)
  have "PORT_RANGE_START \<le> q \<and> q < Suc PORT_RANGE_END"
    using assms(1,2) by (simp add: PORT_RANGE_START_def PORT_RANGE_END_def)
  then have "q \<in> set [PORT_RANGE_START ..< Suc PORT_RANGE_END]"
    by (simp only: set_upt atLeastLessThan_iff)
  with assms(3) have "List.find bindable [PORT_RANGE_START ..< Suc PORT_RANGE_END] \<noteq> None"
    by (auto simp: find_None_iff simp del: upt_Suc)
  then obtain p where "List.find bindable [PORT_RANGE_START ..< Suc PORT_RANGE_END] = Some p"
    by blast
  with findAvailablePort_from_scan [OF le, of bindable m]
  have "findAvailablePort bindable m =
          (Inr p, emit (probe_trace bindable [PORT_RANGE_START ..< Suc PORT_RANGE_END]) m)"
    by (simp add: findAvailablePort_def del: upt_Suc)
  then show ?thesis
    by (simp add: emit_def del: upt_Suc)
qed

lemma startHealthCheck_fields [simp]:
  "process (startHealthCheck m) = process m" "port (startHealthCheck m) = port m"
  "modelPath (startHealthCheck m) = modelPath m" "ready (startHealthCheck m) = ready m"
  "healthCheckInterval (startHealthCheck m) = True"
  "startupPromise (startHealthCheck m) = startupPromise m"
  "usingCuda (startHealthCheck m) = usingCuda m" "canConvert (startHealthCheck m) = canConvert m"
  "filter is_spawn (effects (startHealthCheck m)) = filter is_spawn (effects m)"
  by (simp_all add: startHealthCheck_def stopHealthCheck_def emit_def)

lemma stop_done_frame:
  assumes "stop a m = StopDone m0"
  shows "filter is_spawn (effects m0) = filter is_spawn (effects m) \<and> (process m \<noteq> None \<longrightarrow> \<not> ready m0)"
  using assms
  by (auto simp: stop_def stop_begin_def stop_timer_def killProcess_def Let_def stopHealthCheck_def on_close_def emit_def
      split: option.splits if_splits prod.splits bool.splits)


subsection \<open>Startup timeout\<close>



lemma new_manager_proceeds:
  "start_decide mp opts new_manager = Proceed"
  by (simp add: start_decide_def new_manager_def)




subsection \<open>Fallback from the accelerated binary\<close>

lemma start_succeeds_after_fallback:
  assumes enter: "start_decide mp opts m = Proceed \<and> m0 = m \<or>
                  start_decide mp opts m = StopFirst \<and> stop (stop_ans a) m = StopDone m0"
      and cuda: "useCuda_of opts"
      and nocuda: "\<not> truthy (fst (getServerBinaryPath h True m0))"
      and cpu: "fst (getServerBinaryPath h False m0) = Some bin" "bin \<noteq> []"
      and model: "existsSync h mp"
      and free: "8178 \<le> q" "q \<le> 8199" "port_free a q"
      and before: "\<forall>k<n. \<not> probe_ok (startup_rounds a k) \<and>
                        no_close (probe_events (startup_rounds a k)) \<and>
                        no_close (pause_events (startup_rounds a k))"
      and answer: "probe_ok (startup_rounds a n)" "no_close (probe_events (startup_rounds a n))"
      and intime: "elapsed_before (startup_rounds a) n < STARTUP_TIMEOUT_MS"
  shows "\<exists>m' cid args cwd path. start h a mp opts m = (Settled (Inr ()), m') \<and>
           \<not> usingCuda m' \<and> ready m' \<and> process m' \<noteq> None \<and>
           filter is_spawn (effects m') = filter is_spawn (effects m) @ [Spawn cid bin args cwd path]"
proof -
  from doStart_resolve_fallback [OF cuda nocuda cpu model]
  obtain m1 where r: "doStart_resolve h mp opts m0 = (Inr bin, m1)" "\<not> usingCuda m1"
    by blast
  from findAvailablePort_finds [of q "port_free a" m1, OF free]
  obtain p m2 where f: "findAvailablePort (port_free a) m1 = (Inr p, m2)"
    "usingCuda m2 = usingCuda m1" "filter is_spawn (effects m2) = filter is_spawn (effects m1)"
    by blast
  let ?s = "doStart_spawn h mp opts bin p m2"
  let ?c = "\<lparr>child_id = spawn_count m2, killed = False\<rparr>"
  have pr: "process ?s = Some ?c" by (simp add: doStart_spawn_fields)
  have nk: "\<not> killed ?c" by simp
  have b: "\<forall>j<n. \<not> probe_ok (startup_rounds a (0 + j)) \<and>
                 no_close (probe_events (startup_rounds a (0 + j))) \<and>
                 no_close (pause_events (startup_rounds a (0 + j)))"
    using before by simp
  have a: "probe_ok (startup_rounds a (0 + n))" "no_close (probe_events (startup_rounds a (0 + n)))"
    using answer by simp_all
  have t: "0 + elapsed_before (\<lambda>j. startup_rounds a (0 + j)) n < STARTUP_TIMEOUT_MS"
    using intime by simp
  from waitForReady_loop_succeeds [OF b a t pr nk, of no_info]
  obtain m3 where w: "waitForReady (startup_rounds a) ?s = (Inr (), m3)" "same_owner ?s m3" "ready m3"
    by (auto simp: waitForReady_def)
  from doStart_reaches_wait [OF r(1) f(1)] w(1)
  have d: "doStart h a mp opts m0 = (Inr (), startHealthCheck m3)" by simp
  from start_enters_doStart [OF enter, of h] d
  have s: "start h a mp opts m = (Settled (Inr ()), (startHealthCheck m3)\<lparr>startupPromise := None\<rparr>)"
    by simp
  from doStart_spawn_spawns [of h mp opts bin p m2]
  obtain args cwd path where sp: "filter is_spawn (effects ?s) =
       filter is_spawn (effects m2) @ [Spawn (spawn_count m2) bin args cwd path]"
    by blast
  have e0: "filter is_spawn (effects m0) = filter is_spawn (effects m)"
    using enter stop_done_frame [of "stop_ans a" m m0] by auto
  from doStart_resolve_frame [OF r(1)] have e1: "effects m1 = effects m0" by simp
  from w(2,3) r(2) f(2) pr
  have "\<not> usingCuda m3" "ready m3" "process m3 \<noteq> None"
    by (simp_all add: same_owner_def doStart_spawn_fields)
  moreover from w(2) sp f(3) e1 e0
  have "filter is_spawn (effects m3) = filter is_spawn (effects m) @ [Spawn (spawn_count m2) bin args cwd path]"
    by (simp add: same_owner_def)
  ultimately show ?thesis
    using s by simp
qed

text \<open>
  Claim C5. A \<open>start\<close> that requests acceleration enters \<open>_doStart\<close> (directly, or after
  stopping the previous child), finds that no accelerated binary resolves while a CPU
  binary does, and then meets no other obstacle: the model file exists, a port of the
  range is free, and a readiness probe succeeds before the timeout while the child is
  alive. Then \<open>start\<close> succeeds, the one child it spawns runs the CPU binary, and the
  fallback is visible afterwards: the status flag \<open>usingCuda\<close> is false, which differs
  from the request, while the status reports running.
\<close>

theorem cuda_fallback_observable:
  assumes "start_decide mp opts m = Proceed \<and> m0 = m \<or>
           start_decide mp opts m = StopFirst \<and> stop (stop_ans a) m = StopDone m0"
      and "useCuda_of opts"
      and "\<not> truthy (fst (getServerBinaryPath h True m0))"
      and "fst (getServerBinaryPath h False m0) = Some bin" and "bin \<noteq> []"
      and "existsSync h mp"
      and "8178 \<le> q" and "q \<le> 8199" and "port_free a q"
      and "\<forall>k<n. \<not> probe_ok (startup_rounds a k) \<and>
                 no_close (probe_events (startup_rounds a k)) \<and>
                 no_close (pause_events (startup_rounds a k))"
      and "probe_ok (startup_rounds a n)" and "no_close (probe_events (startup_rounds a n))"
      and "elapsed_before (startup_rounds a) n < STARTUP_TIMEOUT_MS"
  shows "\<exists>m' cid args cwd path. start h a mp opts m = (Settled (Inr ()), m') \<and>
           filter is_spawn (effects m') = filter is_spawn (effects m) @ [Spawn cid bin args cwd path] \<and>
           \<not> usingCuda m' \<and>
           st_usingCuda (fst (getStatus h m')) = False \<and>
           st_usingCuda (fst (getStatus h m')) \<noteq> useCuda_of opts \<and>
           st_running (fst (getStatus h m'))"
proof -
  from start_succeeds_after_fallback [OF assms]
  obtain m' cid args cwd path where
    "start h a mp opts m = (Settled (Inr ()), m')" "\<not> usingCuda m'" "ready m'" "process m' \<noteq> None"
    "filter is_spawn (effects m') = filter is_spawn (effects m) @ [Spawn cid bin args cwd path]"
    by blast
  with assms(2) show ?thesis
    by (auto simp: getStatus_fields)
qed

lemma good_answers_facts:
  "port_free good_answers 8178"
  "\<forall>k<1. \<not> probe_ok (startup_rounds good_answers k) \<and>
          no_close (probe_events (startup_rounds good_answers k)) \<and>
          no_close (pause_events (startup_rounds good_answers k))"
  "probe_ok (startup_rounds good_answers 1)"
  "no_close (probe_events (startup_rounds good_answers 1))"
  "elapsed_before (startup_rounds good_answers) 1 < STARTUP_TIMEOUT_MS"
  by (simp_all add: good_answers_def quiet_round_def no_close_def round_ms_def
      STARTUP_TIMEOUT_MS_def STARTUP_POLL_INTERVAL_MS_def)

theorem cuda_fallback_observable_witness:
  "\<exists>m' cid args cwd path.
     start linux_host good_answers base_model cuda_opts new_manager = (Settled (Inr ()), m') \<and>
     filter is_spawn (effects m') = [Spawn cid cpu_binary args cwd path] \<and>
     st_usingCuda (fst (getStatus linux_host m')) = False \<and>
     st_running (fst (getStatus linux_host m'))"
proof -
  have e: "start_decide base_model cuda_opts new_manager = Proceed \<and> new_manager = new_manager \<or>
           start_decide base_model cuda_opts new_manager = StopFirst \<and>
           stop (stop_ans good_answers) new_manager = StopDone new_manager"
    by (simp add: new_manager_proceeds)
  have c: "cachedCudaBinaryPath new_manager = None" "cachedServerBinaryPath new_manager = None"
    "effects new_manager = []"
    by (simp_all add: new_manager_def)
  have u: "useCuda_of cuda_opts" by (simp add: useCuda_of_def cuda_opts_def)
  have n: "\<not> truthy (fst (getServerBinaryPath linux_host True new_manager))"
    by (simp add: linux_no_cuda_binary [OF c(1)] truthy_def)
  have b: "fst (getServerBinaryPath linux_host False new_manager) = Some cpu_binary" "cpu_binary \<noteq> []"
    by (simp_all add: linux_cpu_binary [OF c(2)] cpu_binary_def)
  have x: "existsSync linux_host base_model" by (simp add: linux_fs)
  have q: "(8178::nat) \<le> 8178" "(8178::nat) \<le> 8199" by simp_all
  from cuda_fallback_observable [OF e u n b x q good_answers_facts]
  show ?thesis
    unfolding c(3) by auto
qed

subsection \<open>Interleaved executions\<close>

lemma checkCudaAvailable_frame [simp]:
  "process (snd (checkCudaAvailable h m)) = process m"
  "port (snd (checkCudaAvailable h m)) = port m"
  by (simp_all add: checkCudaAvailable_def split: option.splits)

lemma getStatus_frame [simp]:
  "process (snd (getStatus h m)) = process m"
  "port (snd (getStatus h m)) = port m"
  by (simp_all add: getStatus_def split_beta isCudaBinaryAvailable_def isAvailable_def)

lemma doStart_resolve_owner [simp]:
  "process (snd (doStart_resolve h mp opts m)) = process m"
  "port (snd (doStart_resolve h mp opts m)) = port m"
  using doStart_resolve_frame [of h mp opts m "fst (doStart_resolve h mp opts m)" "snd (doStart_resolve h mp opts m)"]
  by simp_all

lemma healthTick_owner [simp]:
  "process (snd (healthTick_begin m)) = process m"
  "port (snd (healthTick_begin m)) = port m"
  "process (healthTick_end ok m) = process m"
  "port (healthTick_end ok m) = port m"
  by (simp_all add: healthTick_begin_def healthTick_end_def checkHealth_send_def split: option.splits)

lemma stop_begin_owner:
  "process (snd (stop_begin t m)) \<noteq> None \<Longrightarrow>
   process (snd (stop_begin t m)) = process m \<and> port (snd (stop_begin t m)) = port m"
  by (auto simp: stop_begin_def killProcess_def Let_def split: option.splits if_splits)

lemma stop_timer_owner [simp]:
  "process (snd (stop_timer k m)) = process m"
  "port (snd (stop_timer k m)) = port m"
  by (simp_all add: stop_timer_def killProcess_def Let_def split: option.splits)

lemma step_keeps_port:
  assumes "step h m m'" and "process m \<noteq> None \<longrightarrow> port m \<noteq> None"
  shows "process m' \<noteq> None \<longrightarrow> port m' \<noteq> None"
  using assms
proof (cases rule: step.cases)
  case (stop_begun t)
  with assms(2) stop_begin_owner [of t m] show ?thesis by auto
next
  case (spawn mp opts bin p)
  then show ?thesis by (simp add: doStart_spawn_fields)
qed (simp_all add: isPortAvailable_listen_def isPortAvailable_settle_def checkHealth_send_def
      clearCudaBinaryCache_def on_error_def)

lemma steps_trans: "(step h)\<^sup>*\<^sup>* a b \<Longrightarrow> (step h)\<^sup>*\<^sup>* b c \<Longrightarrow> (step h)\<^sup>*\<^sup>* a c"
  by (rule rtranclp_trans)

lemma child_handler_steps:
  "child_handler e (i, m) = (i', m') \<Longrightarrow> (step h)\<^sup>*\<^sup>* m m'"
  by (cases e) (auto intro: step.child_error step.child_close)

lemma deliver_steps:
  "deliver evs (i, m) = (i', m') \<Longrightarrow> (step h)\<^sup>*\<^sup>* m m'"
proof (induction evs arbitrary: i m)
  case Nil
  then show ?case by (simp add: deliver_def)
next
  case (Cons e evs)
  obtain i1 m1 where s: "child_handler e (i, m) = (i1, m1)"
    by (cases "child_handler e (i, m)")
  with Cons.prems have "deliver evs (i1, m1) = (i', m')"
    by (simp add: deliver_def)
  from child_handler_steps [OF s] Cons.IH [OF this] show ?case
    by (rule steps_trans)
qed

lemma isPortAvailable_steps:
  "(step h)\<^sup>*\<^sup>* m (snd (isPortAvailable bindable p m))"
proof -
  have "step h m (isPortAvailable_listen p m)" by (rule step.listen)
  moreover have "step h (isPortAvailable_listen p m)
     (snd (isPortAvailable_settle p (bindable p) (isPortAvailable_listen p m)))"
    by (rule step.bind_settled)
  ultimately show ?thesis
    by (simp add: isPortAvailable_def)
qed

lemma findAvailablePort_from_steps:
  "(step h)\<^sup>*\<^sup>* m (snd (findAvailablePort_from bindable p m))"
proof (induction bindable p m rule: findAvailablePort_from.induct)
  case (1 bindable p m)
  show ?case
  proof (cases "p \<le> PORT_RANGE_END")
    case False
    then show ?thesis by simp
  next
    case True
    obtain ok m1 where a: "isPortAvailable bindable p m = (ok, m1)"
      by (cases "isPortAvailable bindable p m")
    from isPortAvailable_steps [of h m bindable p] a have s: "(step h)\<^sup>*\<^sup>* m m1" by simp
    show ?thesis
    proof (cases ok)
      case True
      with \<open>p \<le> PORT_RANGE_END\<close> a s show ?thesis by simp
    next
      case False
      with "1.IH" [OF \<open>p \<le> PORT_RANGE_END\<close> a [symmetric]]
      have "(step h)\<^sup>*\<^sup>* m1 (snd (findAvailablePort_from bindable (p + 1) m1))" by simp
      with s have "(step h)\<^sup>*\<^sup>* m (snd (findAvailablePort_from bindable (p + 1) m1))"
        by (rule steps_trans)
      with False \<open>p \<le> PORT_RANGE_END\<close> a show ?thesis by simp
    qed
  qed
qed

lemma waitForReady_loop_steps:
  "(step h)\<^sup>*\<^sup>* m (snd (waitForReady_loop rounds k elapsed i m))"
proof (induction rounds k elapsed i m rule: waitForReady_loop.induct)
  case (1 rounds k elapsed i m)
  show ?case
  proof (cases "waitForReady_head elapsed i m")
    case (Some e)
    then show ?thesis by simp
  next
    case None
    obtain i1 m1 where p: "deliver (probe_events (rounds k)) (i, checkHealth_send m) = (i1, m1)"
      by (cases "deliver (probe_events (rounds k)) (i, checkHealth_send m)")
    have "step h m (checkHealth_send m)" by (rule step.probe_sent)
    with deliver_steps [OF p, of h] have s1: "(step h)\<^sup>*\<^sup>* m m1"
      by (meson converse_rtranclp_into_rtranclp)
    show ?thesis
    proof (cases "probe_ok (rounds k)")
      case True
      have "step h m1 (m1\<lparr>ready := True\<rparr>)" by (rule step.became_ready)
      with s1 have "(step h)\<^sup>*\<^sup>* m (m1\<lparr>ready := True\<rparr>)"
        by (rule rtranclp.rtrancl_into_rtrancl)
      with None p True show ?thesis by simp
    next
      case False
      obtain i2 m2 where q: "deliver (pause_events (rounds k)) (i1, m1) = (i2, m2)"
        by (cases "deliver (pause_events (rounds k)) (i1, m1)")
      from s1 deliver_steps [OF q, of h] have s2: "(step h)\<^sup>*\<^sup>* m m2"
        by (rule steps_trans)
      from "1.IH" [OF None p [symmetric] False q [symmetric]]
      have "(step h)\<^sup>*\<^sup>* m2 (snd (waitForReady_loop rounds (k + 1)
          (elapsed + probe_ms (rounds k) + STARTUP_POLL_INTERVAL_MS + pause_extra (rounds k)) i2 m2))" .
      with s2 have "(step h)\<^sup>*\<^sup>* m (snd (waitForReady_loop rounds (k + 1)
          (elapsed + probe_ms (rounds k) + STARTUP_POLL_INTERVAL_MS + pause_extra (rounds k)) i2 m2))"
        by (rule steps_trans)
      with None p q False show ?thesis by simp
    qed
  qed
qed

lemma stop_steps:
  "stop a m = StopDone m' \<or> stop a m = StopHangs m' \<Longrightarrow> (step h)\<^sup>*\<^sup>* m m'"
proof -
  assume r: "stop a m = StopDone m' \<or> stop a m = StopHangs m'"
  obtain ph m1 where b: "stop_begin (term_throws a) m = (ph, m1)"
    by (cases "stop_begin (term_throws a) m")
  have s1: "(step h)\<^sup>*\<^sup>* m m1"
    using step.stop_begun [of h m "term_throws a"] b by auto
  obtain res m2 where t: "stop_timer (kill_throws a) m1 = (res, m2)"
    by (cases "stop_timer (kill_throws a) m1")
  have s2: "(step h)\<^sup>*\<^sup>* m1 m2"
    using step.stop_timer_fired [of h m1 "kill_throws a"] t by auto
  have c: "(step h)\<^sup>*\<^sup>* x (stop_reset (on_close x))" for x
    using step.child_close [of h x] step.stop_finished [of h "on_close x"]
    by (meson rtranclp.rtrancl_into_rtrancl rtranclp.rtrancl_refl)
  have d: "(step h)\<^sup>*\<^sup>* x (stop_reset x)" for x
    using step.stop_finished [of h x] by auto
  from r b t have "m' = m1 \<or> m' = stop_reset (on_close m1) \<or> m' = stop_reset m2 \<or>
      m' = stop_reset (on_close m2) \<or> m' = m2"
    by (auto simp: stop_def split: stop_phase.splits if_splits bool.splits)
  with s1 s2 c [of m1] c [of m2] d [of m2] show ?thesis
    by (auto intro: steps_trans)
qed

lemma doStart_steps:
  "(step h)\<^sup>*\<^sup>* m (snd (doStart h a mp opts m))"
proof -
  obtain r m1 where r: "doStart_resolve h mp opts m = (r, m1)"
    by (cases "doStart_resolve h mp opts m")
  have s1: "(step h)\<^sup>*\<^sup>* m m1"
    using step.resolve [of h m mp opts] r by auto
  show ?thesis
  proof (cases r)
    case (Inl e)
    with r s1 show ?thesis by (simp add: doStart_def)
  next
    case (Inr bin)
    obtain f m2 where f: "findAvailablePort (port_free a) m1 = (f, m2)"
      by (cases "findAvailablePort (port_free a) m1")
    from findAvailablePort_from_steps [of h m1 "port_free a" PORT_RANGE_START] f
    have "(step h)\<^sup>*\<^sup>* m1 m2" by (simp add: findAvailablePort_def)
    with s1 have s2: "(step h)\<^sup>*\<^sup>* m m2" by (rule steps_trans)
    show ?thesis
    proof (cases f)
      case (Inl e)
      with r f Inr s2 show ?thesis by (simp add: doStart_def)
    next
      case (Inr p)
      let ?s = "doStart_spawn h mp opts bin p m2"
      obtain w m3 where w: "waitForReady (startup_rounds a) ?s = (w, m3)"
        by (cases "waitForReady (startup_rounds a) ?s")
      have "step h m2 ?s" by (rule step.spawn)
      with s2 have s3: "(step h)\<^sup>*\<^sup>* m ?s" by (rule rtranclp.rtrancl_into_rtrancl)
      from waitForReady_loop_steps [of h ?s "startup_rounds a" 0 0 no_info] w
      have "(step h)\<^sup>*\<^sup>* ?s m3" by (simp add: waitForReady_def)
      with s3 have s4: "(step h)\<^sup>*\<^sup>* m m3" by (rule steps_trans)
      have "step h m3 (startHealthCheck m3)" by (rule step.polling_started)
      with s4 have s5: "(step h)\<^sup>*\<^sup>* m (startHealthCheck m3)" by (rule rtranclp.rtrancl_into_rtrancl)
      from r f w \<open>r = Inr bin\<close> Inr s4 s5 show ?thesis
        by (cases w) (simp_all add: doStart_def)
    qed
  qed
qed

lemma start_steps:
  "(step h)\<^sup>*\<^sup>* m (snd (start h a mp opts m))"
proof -
  have d: "(step h)\<^sup>*\<^sup>* x ((snd (doStart h a mp opts x))\<lparr>startupPromise := None\<rparr>)" for x
    using doStart_steps [of h x a mp opts]
      step.clear_promise [of h "snd (doStart h a mp opts x)"]
    by (rule rtranclp.rtrancl_into_rtrancl)
  show ?thesis
  proof (cases "start_decide mp opts m")
    case (JoinInFlight p)
    then show ?thesis by (simp add: start_def)
  next
    case NoOp
    then show ?thesis by (simp add: start_def)
  next
    case Proceed
    with d [of m] show ?thesis by (simp add: start_def split_beta)
  next
    case StopFirst
    show ?thesis
    proof (cases "stop (stop_ans a) m")
      case (StopHangs m1)
      with stop_steps [of "stop_ans a" m m1 h] StopFirst show ?thesis
        by (simp add: start_def)
    next
      case (StopRejected e m1)
      with stop_never_rejects [of "stop_ans a" m e m1] show ?thesis by simp
    next
      case (StopDone m1)
      with stop_steps [of "stop_ans a" m m1 h] have "(step h)\<^sup>*\<^sup>* m m1" by simp
      from this d [of m1] have "(step h)\<^sup>*\<^sup>* m ((snd (doStart h a mp opts m1))\<lparr>startupPromise := None\<rparr>)"
        by (rule steps_trans)
      with StopFirst StopDone show ?thesis by (simp add: start_def split_beta)
    qed
  qed
qed

lemma transcribe_steps:
  "(step h)\<^sup>*\<^sup>* m (snd (transcribe now network parse audio topts m))"
  by (cases "transcribe_prepare now audio topts m")
     (auto simp: transcribe_def intro: step.request_sent)

lemma healthTick_steps:
  "(step h)\<^sup>*\<^sup>* m (healthTick ok m)"
proof -
  obtain sent m1 where b: "healthTick_begin m = (sent, m1)"
    by (cases "healthTick_begin m")
  have "(step h)\<^sup>*\<^sup>* m m1"
    using step.tick_begin [of h m] b by auto
  moreover have "step h m1 (healthTick_end ok m1)" by (rule step.tick_end)
  ultimately show ?thesis
    using b by (cases sent) (auto simp: healthTick_def)
qed

lemma reachable_steps:
  "reachable h m \<Longrightarrow> (step h)\<^sup>*\<^sup>* m m' \<Longrightarrow> reachable h m'"
  unfolding reachable_def by (rule rtranclp_trans)

lemma reachable_ready_manager: "reachable linux_host ready_manager"
proof -
  have "reachable linux_host new_manager" by (simp add: reachable_def)
  from reachable_steps [OF this start_steps [of linux_host new_manager good_answers base_model cuda_opts]]
  show ?thesis by (simp add: start_sample_run)
qed

text \<open>
  Claim C9, as the code has it. In every state that an execution of the manager can
  reach, with calls of \<open>start\<close>, \<open>stop\<close>, \<open>transcribe\<close> and \<open>getStatus\<close> and the
  child, timer and network callbacks interleaved in any way, a child handle is never
  held without a port: whenever \<open>process\<close> is set, \<open>port\<close> is set.
\<close>

theorem child_owned_implies_port_set:
  assumes "reachable h m"
  shows "process m \<noteq> None \<longrightarrow> port m \<noteq> None"
  using assms unfolding reachable_def
proof (induction rule: rtranclp_induct)
  case base
  show ?case by (simp add: new_manager_def)
next
  case (step y z)
  from step_keeps_port [OF step.hyps(2) step.IH] show ?case .
qed

theorem child_owned_implies_port_set_witness:
  "reachable linux_host ready_manager \<and> process ready_manager \<noteq> None \<and> port ready_manager \<noteq> None"
proof -
  have p: "process ready_manager \<noteq> None" by (simp add: ready_manager_def)
  from child_owned_implies_port_set [OF reachable_ready_manager] p reachable_ready_manager
  show ?thesis by blast
qed

theorem port_left_after_exit_counterexample:
  "reachable linux_host (on_close ready_manager) \<and>
   process (on_close ready_manager) = None \<and> port (on_close ready_manager) = Some 8178"
proof -
  have "step linux_host ready_manager (on_close ready_manager)" by (rule step.child_close)
  then have "(step linux_host)\<^sup>*\<^sup>* ready_manager (on_close ready_manager)" by auto
  from reachable_steps [OF reachable_ready_manager this] show ?thesis
    by (simp add: ready_manager_def)
qed

subsection \<open>Concurrent calls of start\<close>

lemmas loop_defs = exec_def launch_def settle_def enter_loop_def start_decide_def stop_begin_def
  stop_timer_def on_close_def stop_reset_def throws_for_def never_throws_def Let_def
  stopHealthCheck_def startHealthCheck_def checkHealth_send_def emit_def
  isPortAvailable_listen_def isPortAvailable_settle_def waitForReady_head_def no_info_def
  PORT_RANGE_START_def PORT_RANGE_END_def STARTUP_TIMEOUT_MS_def HEALTH_CHECK_INTERVAL_MS_def
  spawn_count_def

lemma linux_resolve:
  "cachedCudaBinaryPath m = None \<Longrightarrow> cachedServerBinaryPath m = None \<Longrightarrow>
   mp = base_model \<or> mp = tiny_model \<Longrightarrow>
   doStart_resolve linux_host mp cuda_opts m =
     (Inr cpu_binary, m\<lparr>cachedServerBinaryPath := Some cpu_binary, usingCuda := False\<rparr>)"
  by (auto simp: doStart_resolve_def useCuda_of_def cuda_opts_def linux_no_cuda_binary
      linux_cpu_binary truthy_def or_empty_def linux_fs cpu_binary_def base_model_def tiny_model_def)

lemma linux_resolve_cached:
  "cachedCudaBinaryPath m = None \<Longrightarrow> cachedServerBinaryPath m = Some cpu_binary \<Longrightarrow>
   mp = base_model \<or> mp = tiny_model \<Longrightarrow>
   doStart_resolve linux_host mp cuda_opts m = (Inr cpu_binary, m\<lparr>usingCuda := False\<rparr>)"
  by (auto simp: doStart_resolve_def useCuda_of_def cuda_opts_def linux_no_cuda_binary
      linux_cpu_binary_cached truthy_def or_empty_def linux_fs cpu_binary_def base_model_def tiny_model_def)

lemma linux_spawn:
  "cachedFFmpegPath m = None \<Longrightarrow>
   doStart_spawn linux_host mp cuda_opts cpu_binary p m =
     (emit [Spawn (spawn_count m) cpu_binary
              [''--model'', mp, ''--host'', ''127.0.0.1'', ''--port'', show_nat p]
              ''/opt/app/bin'' ''/opt/app/bin:/usr/bin'']
        (m\<lparr>port := Some p, modelPath := Some mp, canConvert := False\<rparr>))
     \<lparr>process := Some \<lparr>child_id = spawn_count m, killed = False\<rparr>\<rparr>"
proof -
  assume c: "cachedFFmpegPath m = None"
  have ff: "getFFmpegPath linux_host (m\<lparr>port := Some p, modelPath := Some mp\<rparr>) =
            (None, m\<lparr>port := Some p, modelPath := Some mp\<rparr>)"
    using c by (simp add: linux_no_ffmpeg)
  have h: "platform linux_host = ''linux''" "path_dirname linux_host = (\<lambda>p. ''/opt/app/bin'')"
    "env_PATH linux_host = Some ''/usr/bin''"
    by (simp_all add: linux_host_def)
  show ?thesis
    by (simp add: doStart_spawn_def ff h truthy_def or_empty_def spawn_args_def cuda_opts_def
        spawn_count_def emit_def Let_def)
qed

lemma useCuda_cuda_opts: "useCuda_of cuda_opts"
  by (simp add: useCuda_of_def cuda_opts_def)

lemma first_start_run:
  "run linux_host never_throws first_start new_loop = Some ready_loop"
  by (simp add: first_start_def new_loop_def new_manager_def loop_defs linux_resolve linux_spawn useCuda_cuda_opts
      ready_loop_def ready_manager_def digit_char_def LOOPBACK_def)


lemma model_names: "tiny_model \<noteq> base_model" "base_model \<noteq> tiny_model"
  by (simp_all add: tiny_model_def base_model_def)

lemma racing_starts_run:
  "run linux_host never_throws racing_starts ready_loop = Some race_loop"
  by (simp add: racing_starts_def ready_loop_def ready_manager_def loop_defs linux_resolve_cached
      linux_spawn useCuda_cuda_opts race_loop_def digit_char_def LOOPBACK_def model_names)

lemma run_append:
  "run h k (xs @ ys) s = (case run h k xs s of None \<Rightarrow> None | Some s' \<Rightarrow> run h k ys s')"
  by (induction xs arbitrary: s) (simp_all split: option.splits)

text \<open>A call of \<open>start\<close> that finds the in-flight marker set leaves the manager alone and
  waits for the job the marker names.\<close>

lemma exec_joins_in_flight:
  assumes "startupPromise (mgr s) = Some j" and "j < length (jobs s)"
  shows "exec h k (CallStart mp opts) s =
           Some (s\<lparr>calls := calls s @ [case jobs s ! j of Done r \<Rightarrow> Returned r | _ \<Rightarrow> Holding j]\<rparr>)"
  using assms by (simp add: exec_def start_decide_def)

text \<open>With no child owned, the marker is set before the first call suspends, and the
  second call joins it: one job, one child.\<close>

lemma concurrent_starts_without_child:
  "\<exists>s. run linux_host never_throws
          [CallStart base_model cuda_opts, CallStart base_model cuda_opts, PortAnswer 0 True] new_loop = Some s \<and>
        calls s = [AwaitingStart 0, Holding 0] \<and> length (jobs s) = 1 \<and> spawn_count (mgr s) = 1"
  by (simp add: new_loop_def new_manager_def loop_defs linux_resolve linux_spawn useCuda_cuda_opts)

text \<open>
  Claim C1, evaluated on the code. The supervisor is ready with one child. Two calls
  of \<open>start\<close> with identical arguments arrive before the first completes. Each finds
  \<open>startupPromise\<close> empty, because the first call is suspended in \<open>await this.stop()\<close>
  (line 263) and stores its promise only afterwards (line 266). When the old child
  closes, both calls run \<open>_doStart\<close>: two jobs exist, and each spawns a child.
\<close>

theorem concurrent_starts_spawn_two_children:
  "run linux_host never_throws (first_start @ racing_starts) new_loop = Some race_loop \<and>
   calls race_loop = [Returned (Inr ()), AwaitingStart 1, AwaitingStart 2] \<and>
   filter is_spawn (effects (mgr race_loop)) =
     [Spawn 0 cpu_binary [''--model'', base_model, ''--host'', ''127.0.0.1'', ''--port'', ''8178'']
        ''/opt/app/bin'' ''/opt/app/bin:/usr/bin'',
      Spawn 1 cpu_binary [''--model'', tiny_model, ''--host'', ''127.0.0.1'', ''--port'', ''8178'']
        ''/opt/app/bin'' ''/opt/app/bin:/usr/bin'',
      Spawn 2 cpu_binary [''--model'', tiny_model, ''--host'', ''127.0.0.1'', ''--port'', ''8179'']
        ''/opt/app/bin'' ''/opt/app/bin:/usr/bin'']"
proof -
  have "run linux_host never_throws (first_start @ racing_starts) new_loop = Some race_loop"
    by (simp add: run_append first_start_run racing_starts_run)
  then show ?thesis
    by (simp add: race_loop_def ready_manager_def LOOPBACK_def)
qed

subsection \<open>Event-loop executions are interleavings\<close>

lemma settle_steps: "(step h)\<^sup>*\<^sup>* (mgr s) (mgr (settle j r s))"
  by (auto simp: settle_def intro: step.clear_promise)

lemma enter_loop_steps: "(step h)\<^sup>*\<^sup>* (mgr s) (mgr (enter_loop j c s))"
  by (cases "waitForReady_head 0 no_info (mgr s)")
     (auto simp: enter_loop_def settle_steps intro: step.probe_sent)

lemma launch_steps: "(step h)\<^sup>*\<^sup>* (mgr s) (mgr (launch h i mp opts s))"
proof -
  obtain r m1 where r: "doStart_resolve h mp opts (mgr s) = (r, m1)"
    by (cases "doStart_resolve h mp opts (mgr s)")
  have s1: "(step h)\<^sup>*\<^sup>* (mgr s) m1"
    using step.resolve [of h "mgr s" mp opts] r by auto
  have s2: "(step h)\<^sup>*\<^sup>* (mgr s) (m1\<lparr>startupPromise := Some j\<rparr>)" for j
    using s1 step.store_promise [of h m1 j] by (rule rtranclp.rtrancl_into_rtrancl)
  have s3: "(step h)\<^sup>*\<^sup>* (mgr s) ((isPortAvailable_listen p m1)\<lparr>startupPromise := Some j\<rparr>)" for p j
  proof -
    have "step h m1 (isPortAvailable_listen p m1)" by (rule step.listen)
    with s1 have "(step h)\<^sup>*\<^sup>* (mgr s) (isPortAvailable_listen p m1)"
      by (rule rtranclp.rtrancl_into_rtrancl)
    from this step.store_promise [of h "isPortAvailable_listen p m1" j] show ?thesis
      by (rule rtranclp.rtrancl_into_rtrancl)
  qed
  have s4: "(step h)\<^sup>*\<^sup>* (mgr s) (mgr (settle j e t))"
    if "mgr t = m1\<lparr>startupPromise := Some j\<rparr>" for j e t
    using s2 [of j] settle_steps [of h t j e] that
    by (auto intro: steps_trans)
  let ?j = "length (jobs s)"
  show ?thesis
  proof (cases r)
    case (Inl e)
    have "(step h)\<^sup>*\<^sup>* (mgr s) (mgr (settle ?j (Inl e)
            (s\<lparr>mgr := m1\<lparr>startupPromise := Some ?j\<rparr>, jobs := jobs s @ [Done (Inl e)],
               calls := (calls s)[i := AwaitingStart ?j]\<rparr>)))"
      by (rule s4) simp
    with r Inl show ?thesis by (simp add: launch_def Let_def)
  next
    case (Inr bin)
    have "(step h)\<^sup>*\<^sup>* (mgr s) (mgr (settle ?j (Inl NoPortAvailable)
            (s\<lparr>mgr := m1\<lparr>startupPromise := Some ?j\<rparr>, jobs := jobs s @ [Done (Inl NoPortAvailable)],
               calls := (calls s)[i := AwaitingStart ?j]\<rparr>)))"
      by (rule s4) simp
    with r Inr s3 [where p = PORT_RANGE_START and j = ?j] show ?thesis by (simp add: launch_def Let_def)
  qed
qed

lemma fold_launch_steps:
  "(step h)\<^sup>*\<^sup>* (mgr s) (mgr (fold (\<lambda>(i, mp, opts) t. launch h i mp opts t) ws s))"
proof (induction ws arbitrary: s)
  case Nil
  show ?case by simp
next
  case (Cons w ws)
  obtain i mp opts where w: "w = (i, mp, opts)" by (cases w)
  from launch_steps [of h s i mp opts] Cons.IH [of "launch h i mp opts s"]
  show ?case unfolding w by (auto intro: steps_trans)
qed

lemma fold_reset_steps:
  "(step h)\<^sup>*\<^sup>* m (fold (\<lambda>w m. stop_reset m) ws m)"
proof (induction ws arbitrary: m)
  case Nil
  show ?case by simp
next
  case (Cons w ws)
  have "step h m (stop_reset m)" by (rule step.stop_finished)
  with Cons.IH [of "stop_reset m"] show ?case
    by (auto intro: converse_rtranclp_into_rtranclp)
qed

lemma exec_steps:
  assumes "exec h k ev s = Some s'"
  shows "(step h)\<^sup>*\<^sup>* (mgr s) (mgr s')"
proof (cases ev)
  case (CallStart mp opts)
  show ?thesis
  proof (cases "start_decide mp opts (mgr s)")
    case (JoinInFlight p)
    with assms CallStart show ?thesis by (auto simp: exec_def Let_def)
  next
    case NoOp
    with assms CallStart show ?thesis by (auto simp: exec_def Let_def)
  next
    case Proceed
    with assms CallStart
      launch_steps [of h "s\<lparr>calls := calls s @ [AwaitingStart 0]\<rparr>" "length (calls s)" mp opts]
    show ?thesis by (auto simp: exec_def Let_def)
  next
    case StopFirst
    obtain ph m1 where b: "stop_begin (throws_for k SIGTERM (mgr s)) (mgr s) = (ph, m1)"
      by (cases "stop_begin (throws_for k SIGTERM (mgr s)) (mgr s)")
    have s1: "(step h)\<^sup>*\<^sup>* (mgr s) m1"
      using step.stop_begun [of h "mgr s" "throws_for k SIGTERM (mgr s)"] b by auto
    show ?thesis
    proof (cases ph)
      case StopReturned
      with assms CallStart StopFirst b s1
        launch_steps [of h "s\<lparr>mgr := m1, calls := calls s @ [AwaitingStart 0]\<rparr>" "length (calls s)" mp opts]
      show ?thesis by (auto simp: exec_def Let_def intro: steps_trans)
    next
      case (StopWaiting c)
      with assms CallStart StopFirst b s1 show ?thesis by (auto simp: exec_def Let_def)
    qed
  qed
next
  case (PortAnswer j ok)
  with assms obtain mp opts bin p where j: "j < length (jobs s)" "jobs s ! j = Scanning mp opts bin p"
    by (auto simp: exec_def split: if_splits job.splits)
  obtain r m1 where b: "isPortAvailable_settle p ok (mgr s) = (r, m1)"
    by (cases "isPortAvailable_settle p ok (mgr s)")
  have s1: "(step h)\<^sup>*\<^sup>* (mgr s) m1"
    using step.bind_settled [of h "mgr s" p ok] b by auto
  show ?thesis
  proof (cases r)
    case True
    have "step h m1 (doStart_spawn h mp opts bin p m1)" by (rule step.spawn)
    with s1 have "(step h)\<^sup>*\<^sup>* (mgr s) (doStart_spawn h mp opts bin p m1)"
      by (rule rtranclp.rtrancl_into_rtrancl)
    with enter_loop_steps [of h "s\<lparr>mgr := doStart_spawn h mp opts bin p m1\<rparr>" j "spawn_count m1"]
    have "(step h)\<^sup>*\<^sup>* (mgr s) (mgr (enter_loop j (spawn_count m1) (s\<lparr>mgr := doStart_spawn h mp opts bin p m1\<rparr>)))"
      by (auto intro: steps_trans)
    with assms PortAnswer j b True show ?thesis by (auto simp: exec_def)
  next
    case False
    have "step h m1 (isPortAvailable_listen (p + 1) m1)" by (rule step.listen)
    with s1 have "(step h)\<^sup>*\<^sup>* (mgr s) (isPortAvailable_listen (p + 1) m1)"
      by (rule rtranclp.rtrancl_into_rtrancl)
    moreover from s1 settle_steps [of h "s\<lparr>mgr := m1\<rparr>" j "Inl NoPortAvailable"]
    have "(step h)\<^sup>*\<^sup>* (mgr s) (mgr (settle j (Inl NoPortAvailable) (s\<lparr>mgr := m1\<rparr>)))"
      by (auto intro: steps_trans)
    ultimately show ?thesis
      using assms PortAnswer j b False by (auto simp: exec_def split: if_splits)
  qed
next
  case (HealthAnswer j ok)
  with assms obtain c t0 i where j: "j < length (jobs s)" "jobs s ! j = Probing c t0 i"
    by (auto simp: exec_def split: if_splits job.splits)
  have "step h (mgr s) ((mgr s)\<lparr>ready := True\<rparr>)" by (rule step.became_ready)
  moreover have "step h ((mgr s)\<lparr>ready := True\<rparr>) (startHealthCheck ((mgr s)\<lparr>ready := True\<rparr>))"
    by (rule step.polling_started)
  ultimately have "(step h)\<^sup>*\<^sup>* (mgr s) (startHealthCheck ((mgr s)\<lparr>ready := True\<rparr>))"
    by auto
  with settle_steps [of h "s\<lparr>mgr := startHealthCheck ((mgr s)\<lparr>ready := True\<rparr>)\<rparr>" j "Inr ()"]
  have "(step h)\<^sup>*\<^sup>* (mgr s)
          (mgr (settle j (Inr ()) (s\<lparr>mgr := startHealthCheck ((mgr s)\<lparr>ready := True\<rparr>)\<rparr>)))"
    by (auto intro: steps_trans)
  with assms HealthAnswer j show ?thesis
    by (auto simp: exec_def split: if_splits)
next
  case (PauseOver j)
  with assms obtain c t0 i where j: "j < length (jobs s)" "jobs s ! j = Pausing c t0 i"
    by (auto simp: exec_def split: if_splits job.splits)
  have "step h (mgr s) (checkHealth_send (mgr s))" by (rule step.probe_sent)
  with assms PauseOver j settle_steps [of h s j] show ?thesis
    by (auto simp: exec_def split: if_splits option.splits)
next
  case (ChildStderr c d)
  with assms show ?thesis by (auto simp: exec_def split: if_splits)
next
  case (ChildError c msg)
  with assms step.child_error [of h "mgr s"] show ?thesis
    by (auto simp: exec_def split: if_splits)
next
  case (ChildClose c code)
  let ?ws = "stop_waiters c (calls s) 0"
  let ?s1 = "s\<lparr>mgr := on_close (mgr s), jobs := map (note_exit c code) (jobs s), closed := closed s @ [c]\<rparr>"
  let ?s2 = "?s1\<lparr>mgr := fold (\<lambda>w m. stop_reset m) ?ws (mgr ?s1)\<rparr>"
  from assms ChildClose have s': "s' = fold (\<lambda>(i, mp, opts) t. launch h i mp opts t) ?ws ?s2"
    by (auto simp: exec_def Let_def split: if_splits)
  have "step h (mgr s) (on_close (mgr s))" by (rule step.child_close)
  then have a: "(step h)\<^sup>*\<^sup>* (mgr s) (mgr ?s1)" by auto
  from fold_reset_steps [of h "mgr ?s1" ?ws] have b: "(step h)\<^sup>*\<^sup>* (mgr ?s1) (mgr ?s2)" by simp
  from a b fold_launch_steps [of h ?s2 ?ws] show ?thesis
    unfolding s' by (blast intro: steps_trans)
next
  case (GraceOver i)
  with assms obtain c mp opts where i: "i < length (calls s)" "calls s ! i = AwaitingStop c True mp opts"
    by (auto simp: exec_def split: if_splits call.splits bool.splits)
  obtain r m1 where b: "stop_timer (throws_for k SIGKILL (mgr s)) (mgr s) = (r, m1)"
    by (cases "stop_timer (throws_for k SIGKILL (mgr s)) (mgr s)")
  have s1: "(step h)\<^sup>*\<^sup>* (mgr s) m1"
    using step.stop_timer_fired [of h "mgr s" "throws_for k SIGKILL (mgr s)"] b by auto
  have "step h m1 (stop_reset m1)" by (rule step.stop_finished)
  with s1 have "(step h)\<^sup>*\<^sup>* (mgr s) (stop_reset m1)" by (rule rtranclp.rtrancl_into_rtrancl)
  with launch_steps [of h "s\<lparr>mgr := stop_reset m1\<rparr>" i mp opts]
  have "(step h)\<^sup>*\<^sup>* (mgr s) (mgr (launch h i mp opts (s\<lparr>mgr := stop_reset m1\<rparr>)))"
    by (auto intro: steps_trans)
  with assms GraceOver i b s1 show ?thesis
    by (cases r) (auto simp: exec_def)
next
  case (TimePasses n)
  with assms show ?thesis by (auto simp: exec_def)
qed

lemma run_steps:
  "run h k evs s = Some s' \<Longrightarrow> (step h)\<^sup>*\<^sup>* (mgr s) (mgr s')"
proof (induction evs arbitrary: s)
  case Nil
  then show ?case by simp
next
  case (Cons ev evs)
  then obtain s1 where e: "exec h k ev s = Some s1" and r: "run h k evs s1 = Some s'"
    by (auto split: option.splits)
  from exec_steps [OF e] Cons.IH [OF r] show ?case by (rule steps_trans)
qed

lemma run_reachable:
  "run h k evs new_loop = Some s \<Longrightarrow> reachable h (mgr s)"
  using run_steps [of h k evs new_loop s] by (simp add: reachable_def new_loop_def)

subsection \<open>A repeated request after a fallback\<close>

lemma stop_ready_manager:
  "stop graceful_stop ready_manager =
     StopDone (ready_manager\<lparr>process := None, port := None, ready := False, modelPath := None,
       healthCheckInterval := False,
       effects := effects ready_manager @ [ClearInterval, Kill 0 SIGTERM]\<rparr>)"
  by (simp add: stop_def stop_begin_def graceful_stop_def Let_def ready_manager_def stopHealthCheck_def
      stop_reset_def on_close_def emit_def)

lemma restart_wait:
  "waitForReady (\<lambda>k. quiet_round (k = 1))
     (ready_manager\<lparr>process := Some \<lparr>child_id = 1, killed = False\<rparr>, ready := False,
        healthCheckInterval := False, effects := es\<rparr>) =
   (Inr (), ready_manager\<lparr>process := Some \<lparr>child_id = 1, killed = False\<rparr>,
        healthCheckInterval := False,
        effects := es @ [HealthGet (Some 8178), HealthGet (Some 8178)]\<rparr>)"
  by (simp add: waitForReady_def waitForReady_head_def quiet_round_def deliver_def checkHealth_send_def
      emit_def ready_manager_def no_info_def STARTUP_TIMEOUT_MS_def STARTUP_POLL_INTERVAL_MS_def)

text \<open>
  Claim C8. The comment of line 259 speaks of the acceleration preference, and the test
  of line 260 compares the requested preference with \<open>usingCuda\<close>, the variant that
  line 295 recorded. On the sample host, which has no accelerated binary, a start that
  asks for acceleration falls back to the CPU binary and leaves the manager ready with
  the requested model and no start in flight. The identical request, repeated in that
  state, is not a no-op: health polling is stopped, child 0 is sent \<open>SIGTERM\<close>, port
  8178 is probed again, a child 1 is spawned and polled, and \<open>process\<close> and the record
  of external actions differ from before.
\<close>

theorem repeated_start_after_fallback_restarts:
  "start linux_host good_answers base_model cuda_opts new_manager = (Settled (Inr ()), ready_manager) \<and>
   ready ready_manager \<and> modelPath ready_manager = Some base_model \<and>
   startupPromise ready_manager = None \<and>
   start linux_host good_answers base_model cuda_opts ready_manager =
     (Settled (Inr ()),
      ready_manager\<lparr>process := Some \<lparr>child_id = 1, killed = False\<rparr>,
        effects := effects ready_manager @
          [ClearInterval, Kill 0 SIGTERM, Listen 8178 LOOPBACK, CloseListener 8178,
           Spawn 1 cpu_binary
             [''--model'', base_model, ''--host'', ''127.0.0.1'', ''--port'', ''8178'']
             ''/opt/app/bin'' ''/opt/app/bin:/usr/bin'',
           HealthGet (Some 8178), HealthGet (Some 8178),
           SetInterval HEALTH_CHECK_INTERVAL_MS]\<rparr>)"
proof -
  let ?m1 = "ready_manager\<lparr>process := None, port := None, ready := False, modelPath := None,
       healthCheckInterval := False,
       effects := effects ready_manager @ [ClearInterval, Kill 0 SIGTERM]\<rparr>"
  have d: "start_decide base_model cuda_opts ready_manager = StopFirst"
    by (rule repeated_request_after_fallback)
  have a: "stop_ans good_answers = graceful_stop" "port_free good_answers 8178"
    "startup_rounds good_answers = (\<lambda>k. quiet_round (k = 1))"
    by (simp_all add: good_answers_def)
  have r: "doStart_resolve linux_host base_model cuda_opts ?m1 = (Inr cpu_binary, ?m1)"
    using linux_resolve_cached [of ?m1 base_model] by (simp add: ready_manager_def)
  note f = findAvailablePort_first [of "port_free good_answers" ?m1, OF a(2)]
  have s: "doStart_spawn linux_host base_model cuda_opts cpu_binary 8178
             (emit [Listen 8178 LOOPBACK, CloseListener 8178] ?m1) =
           ready_manager\<lparr>process := Some \<lparr>child_id = 1, killed = False\<rparr>, ready := False,
             healthCheckInterval := False,
             effects := effects ready_manager @
               [ClearInterval, Kill 0 SIGTERM, Listen 8178 LOOPBACK, CloseListener 8178,
                Spawn 1 cpu_binary
                  [''--model'', base_model, ''--host'', ''127.0.0.1'', ''--port'', ''8178'']
                  ''/opt/app/bin'' ''/opt/app/bin:/usr/bin'']\<rparr>"
    using linux_spawn [of "emit [Listen 8178 LOOPBACK, CloseListener 8178] ?m1" base_model 8178]
    by (simp add: ready_manager_def emit_def spawn_count_def digit_char_def)
  have "doStart linux_host good_answers base_model cuda_opts ?m1 =
        (Inr (), startHealthCheck (ready_manager\<lparr>process := Some \<lparr>child_id = 1, killed = False\<rparr>,
          healthCheckInterval := False,
          effects := (effects ready_manager @
               [ClearInterval, Kill 0 SIGTERM, Listen 8178 LOOPBACK, CloseListener 8178,
                Spawn 1 cpu_binary
                  [''--model'', base_model, ''--host'', ''127.0.0.1'', ''--port'', ''8178'']
                  ''/opt/app/bin'' ''/opt/app/bin:/usr/bin'']) @
               [HealthGet (Some 8178), HealthGet (Some 8178)]\<rparr>))"
    by (simp only: doStart_def r f s a(3) restart_wait prod.case sum.case)
  then have w: "doStart linux_host good_answers base_model cuda_opts ?m1 =
        (Inr (), ready_manager\<lparr>process := Some \<lparr>child_id = 1, killed = False\<rparr>,
          effects := effects ready_manager @
               [ClearInterval, Kill 0 SIGTERM, Listen 8178 LOOPBACK, CloseListener 8178,
                Spawn 1 cpu_binary
                  [''--model'', base_model, ''--host'', ''127.0.0.1'', ''--port'', ''8178'']
                  ''/opt/app/bin'' ''/opt/app/bin:/usr/bin'',
                HealthGet (Some 8178), HealthGet (Some 8178),
                SetInterval HEALTH_CHECK_INTERVAL_MS]\<rparr>)"
    by (simp add: startHealthCheck_def stopHealthCheck_def emit_def ready_manager_def)
  have second: "start linux_host good_answers base_model cuda_opts ready_manager =
     (Settled (Inr ()),
      ready_manager\<lparr>process := Some \<lparr>child_id = 1, killed = False\<rparr>,
        effects := effects ready_manager @
          [ClearInterval, Kill 0 SIGTERM, Listen 8178 LOOPBACK, CloseListener 8178,
           Spawn 1 cpu_binary
             [''--model'', base_model, ''--host'', ''127.0.0.1'', ''--port'', ''8178'']
             ''/opt/app/bin'' ''/opt/app/bin:/usr/bin'',
           HealthGet (Some 8178), HealthGet (Some 8178),
           SetInterval HEALTH_CHECK_INTERVAL_MS]\<rparr>)"
    by (simp add: start_def d a(1) stop_ready_manager w) (simp add: ready_manager_def)
  have fields: "ready ready_manager" "modelPath ready_manager = Some base_model"
    "startupPromise ready_manager = None"
    by (simp_all add: ready_manager_def)
  from start_sample_run second fields show ?thesis by simp
qed

end
